theory Spec2Isabelle
  imports Complex_Main
begin

section \<open>Python values and exceptions\<close>

text \<open>
  The exceptions the modelled code can raise. The source defines no exception class of
  its own: every failure is one of the interpreter's or of numpy's.
\<close>

datatype error =
    ValueError
  | IndexError
  | ZeroDivisionError
  | TypeError
  | KeyError
  | AttributeError

section \<open>numpy primitives used by the segmenter\<close>

text \<open>
  One-dimensional arrays are lists. The element type is any type with a zero: the
  binary64 floats of the source, read as \<^typ>\<open>real\<close> in the evaluated examples.

  \<^verbatim>\<open>np.roll(a, shift)\<close>: element \<open>i\<close> of the result is element
  \<open>(i - shift) mod N\<close> of \<open>a\<close>; an empty array is returned as it is.
\<close>

definition roll :: "'a list \<Rightarrow> int \<Rightarrow> 'a list" where
  "roll a shift =
     (if a = [] then a else rotate (nat ((- shift) mod int (length a))) a)"

text \<open>\<^verbatim>\<open>a[:stop]\<close>: a negative stop counts from the end, and the slice never raises.\<close>

definition slice_to :: "'a list \<Rightarrow> int \<Rightarrow> 'a list" where
  "slice_to a stop =
     (if 0 \<le> stop then take (nat stop) a else take (nat (int (length a) + stop)) a)"

text \<open>\<^verbatim>\<open>range(n)\<close>: empty when \<open>n \<le> 0\<close>.\<close>

definition py_range :: "int \<Rightarrow> int list" where
  "py_range n = map int [0..<nat n]"

text \<open>\<^verbatim>\<open>arr.any()\<close> on a two-dimensional array: some element is non-zero.\<close>

definition np_any :: "'a::zero list list \<Rightarrow> bool" where
  "np_any rows = list_ex (list_ex (\<lambda>x. x \<noteq> 0)) rows"

section \<open>The segmenter: \<^verbatim>\<open>TrainNormalizeTransform.rolling_window\<close>\<close>

text \<open>
  \<^verbatim>\<open>
  def rolling_window(a, window, step):
      n_chunks = (a.shape[0] - window) // step + 1
      split_chunks = np.array(
          [np.roll(a, -step * index)[:window] for index in range(n_chunks)])
      if split_chunks.any():
          return np.vstack(split_chunks)
  \<close>
  \<open>//\<close> on Python integers is floor division, as \<open>div\<close> on \<^typ>\<open>int\<close> is, and raises
  ZeroDivisionError for a zero divisor. Falling off the end of the function returns
  \<open>None\<close>, modelled as \<open>Inr None\<close>.
\<close>

definition n_chunks :: "'a list \<Rightarrow> int \<Rightarrow> int \<Rightarrow> int" where
  "n_chunks a window step = (int (length a) - window) div step + 1"

definition split_chunks :: "'a list \<Rightarrow> int \<Rightarrow> int \<Rightarrow> 'a list list" where
  "split_chunks a window step =
     map (\<lambda>index. slice_to (roll a (- step * index)) window)
         (py_range (n_chunks a window step))"

definition rolling_window ::
  "'a::zero list \<Rightarrow> int \<Rightarrow> int \<Rightarrow> error + 'a list list option" where
  "rolling_window a window step =
     (if step = 0 then Inl ZeroDivisionError
      else if np_any (split_chunks a window step)
           then Inr (Some (split_chunks a window step))
           else Inr None)"

section \<open>The passthrough encoder: \<^verbatim>\<open>string_to_float_series\<close>\<close>

text \<open>
  \<^verbatim>\<open>
  def string_to_float_series(string_series, delimiter=None):
      return np.array([float(value) for value in string_series.split(delimiter)])
  \<close>
  Strings are lists of code points below 256. \<^verbatim>\<open>str.split(None)\<close> splits at runs of
  whitespace (the code points \<^verbatim>\<open>str.isspace\<close> accepts) and
  returns no empty token; \<^verbatim>\<open>str.split(sep)\<close> splits at every occurrence of \<open>sep\<close>,
  left to right, keeps empty tokens, and raises ValueError for the empty separator.
\<close>

definition isspace :: "char \<Rightarrow> bool" where
  "isspace c = ((of_char c :: nat) \<in> {9, 10, 11, 12, 13, 28, 29, 30, 31, 32, 133, 160})"

fun split_whitespace :: "string \<Rightarrow> string \<Rightarrow> string list" where
  "split_whitespace cur [] = (if cur = [] then [] else [cur])"
| "split_whitespace cur (c # cs) =
     (if isspace c
      then (if cur = [] then split_whitespace [] cs else cur # split_whitespace [] cs)
      else split_whitespace (cur @ [c]) cs)"

fun split_sep :: "string \<Rightarrow> string \<Rightarrow> string \<Rightarrow> string list" where
  "split_sep sep cur [] = [cur]"
| "split_sep sep cur (c # cs) =
     (if sep \<noteq> [] \<and> take (length sep) (c # cs) = sep
      then cur # split_sep sep [] (drop (length sep - 1) cs)
      else split_sep sep (cur @ [c]) cs)"

definition str_split :: "string \<Rightarrow> string option \<Rightarrow> error + string list" where
  "str_split s delimiter =
     (case delimiter of
        None \<Rightarrow> Inr (split_whitespace [] s)
      | Some sep \<Rightarrow> if sep = [] then Inl ValueError else Inr (split_sep sep [] s))"

text \<open>
  The builtin \<^verbatim>\<open>float\<close> is a parameter \<open>pyfloat\<close>: it maps a token to its value, or to
  \<open>None\<close> where Python raises ValueError (the token is not numeric). The list
  comprehension converts the tokens in order and stops at the first that fails.
\<close>

fun float_all :: "(string \<Rightarrow> 'a option) \<Rightarrow> string list \<Rightarrow> error + 'a list" where
  "float_all pyfloat [] = Inr []"
| "float_all pyfloat (tok # rest) =
     (case pyfloat tok of
        None \<Rightarrow> Inl ValueError
      | Some v \<Rightarrow> (case float_all pyfloat rest of
                    Inl e \<Rightarrow> Inl e
                  | Inr vs \<Rightarrow> Inr (v # vs)))"

definition string_to_float_series ::
  "(string \<Rightarrow> 'a option) \<Rightarrow> string \<Rightarrow> string option \<Rightarrow> error + 'a list" where
  "string_to_float_series pyfloat string_series delimiter =
     (case str_split string_series delimiter of
        Inl e \<Rightarrow> Inl e
      | Inr toks \<Rightarrow> float_all pyfloat toks)"

section \<open>The dataset assembler: \<^verbatim>\<open>TrainNormalizeTransform.transform\<close>\<close>

text \<open>
  \<^verbatim>\<open>
  def transform(self, X, y=None, delimiter=None):
      normalized_trains = np.zeros(self.window)
      target = np.array([])
      for train_index, spike_train in enumerate(X.series.values):
          spike_train = self.string_to_float_series(spike_train, delimiter=delimiter)
          split_chunks = self.rolling_window(
              spike_train, window=self.window, step=self.step)
          if split_chunks is not None:
              normalized_trains = np.vstack([normalized_trains, split_chunks])
              target = np.append(target, [y[train_index]] * split_chunks.shape[0])
      normalized_trains = normalized_trains[1:, :]
      if self.n_samples is not None:
          drawn_indices = np.random.choice(
              normalized_trains.shape[0], self.n_samples)
          normalized_trains = normalized_trains[drawn_indices, :]
          target = target[drawn_indices]
      return np.vstack(normalized_trains), target
  \<close>
\<close>

record train_normalize =
  window :: int
  step :: int
  n_samples :: "int option"

text \<open>
  The accumulator starts as a one-dimensional array and becomes two-dimensional at the
  first \<^verbatim>\<open>vstack\<close>; a two-dimensional array carries its column count.
\<close>

datatype 'a ndarray = Arr1 "'a list" | Arr2 nat "'a list list"

definition np_zeros :: "int \<Rightarrow> error + 'a::zero list" where
  "np_zeros n = (if n < 0 then Inl ValueError else Inr (replicate (nat n) 0))"

text \<open>
  \<^verbatim>\<open>np.vstack([acc, chunks])\<close>: a one-dimensional \<open>acc\<close> counts as one row; the column
  counts must agree, or numpy raises ValueError.
\<close>

definition vstack2 :: "'a ndarray \<Rightarrow> 'a list list \<Rightarrow> error + 'a ndarray" where
  "vstack2 acc chunks =
     (case acc of
        Arr1 v \<Rightarrow> if list_all (\<lambda>r. length r = length v) chunks
                  then Inr (Arr2 (length v) (v # chunks)) else Inl ValueError
      | Arr2 w m \<Rightarrow> if list_all (\<lambda>r. length r = w) chunks
                    then Inr (Arr2 w (m @ chunks)) else Inl ValueError)"

text \<open>\<^verbatim>\<open>y[train_index]\<close>: \<open>y\<close> defaults to \<open>None\<close>, which is not subscriptable.\<close>

definition getitem :: "'l list option \<Rightarrow> nat \<Rightarrow> error + 'l" where
  "getitem y i =
     (case y of
        None \<Rightarrow> Inl TypeError
      | Some ys \<Rightarrow> if i < length ys then Inr (ys ! i) else Inl IndexError)"

fun assemble ::
  "(string \<Rightarrow> 'a::zero option) \<Rightarrow> train_normalize \<Rightarrow> 'l list option \<Rightarrow> string option \<Rightarrow>
   (nat \<times> string) list \<Rightarrow> 'a ndarray \<times> 'l list \<Rightarrow> error + ('a ndarray \<times> 'l list)" where
  "assemble pyfloat self y delimiter [] acc = Inr acc"
| "assemble pyfloat self y delimiter ((train_index, spike_train) # rest)
       (normalized_trains, target) =
     (case string_to_float_series pyfloat spike_train delimiter of
        Inl e \<Rightarrow> Inl e
      | Inr a \<Rightarrow>
         (case rolling_window a (window self) (step self) of
            Inl e \<Rightarrow> Inl e
          | Inr None \<Rightarrow> assemble pyfloat self y delimiter rest (normalized_trains, target)
          | Inr (Some chunks) \<Rightarrow>
             (case vstack2 normalized_trains chunks of
                Inl e \<Rightarrow> Inl e
              | Inr stacked \<Rightarrow>
                 (case getitem y train_index of
                    Inl e \<Rightarrow> Inl e
                  | Inr label \<Rightarrow>
                      assemble pyfloat self y delimiter rest
                        (stacked, target @ replicate (length chunks) label)))))"

text \<open>
  \<^verbatim>\<open>np.random.choice(a, size)\<close> draws \<open>k\<close> indices below \<open>a\<close>, independently (the
  default is \<^verbatim>\<open>replace=True\<close>). The generator is the parameter \<open>draw\<close>, the stream of
  its raw draws: every stream gives a possible outcome and every outcome comes from
  some stream. A negative size and drawing from an empty range raise ValueError.
\<close>

definition random_choice :: "(nat \<Rightarrow> nat) \<Rightarrow> nat \<Rightarrow> int \<Rightarrow> error + nat list" where
  "random_choice draw a k =
     (if k < 0 then Inl ValueError
      else if a = 0 \<and> 0 < k then Inl ValueError
      else Inr (map (\<lambda>i. draw i mod a) [0..<nat k]))"

text \<open>The indices \<^verbatim>\<open>np.random.choice(a, k)\<close> returns where it succeeds.\<close>

definition drawn_indices :: "(nat \<Rightarrow> nat) \<Rightarrow> nat \<Rightarrow> int \<Rightarrow> nat list" where
  "drawn_indices draw a k = map (\<lambda>i. draw i mod a) [0..<nat k]"

text \<open>Indexing with an index array, \<^verbatim>\<open>arr[indices]\<close>.\<close>

definition take_rows :: "'b list \<Rightarrow> nat list \<Rightarrow> error + 'b list" where
  "take_rows xs indices =
     (if list_all (\<lambda>i. i < length xs) indices then Inr (map ((!) xs) indices)
      else Inl IndexError)"

text \<open>\<^verbatim>\<open>np.vstack\<close> of a two-dimensional array with no row raises ValueError.\<close>

definition vstack_rows :: "'a list list \<Rightarrow> error + 'a list list" where
  "vstack_rows m = (if m = [] then Inl ValueError else Inr m)"

definition subsample ::
  "(nat \<Rightarrow> nat) \<Rightarrow> int option \<Rightarrow> 'a list list \<Rightarrow> 'l list \<Rightarrow> error + ('a list list \<times> 'l list)" where
  "subsample draw requested m target =
     (case requested of
        None \<Rightarrow> Inr (m, target)
      | Some k \<Rightarrow>
         (case random_choice draw (length m) k of
            Inl e \<Rightarrow> Inl e
          | Inr sampled_indices \<Rightarrow>
             (case take_rows m sampled_indices of
                Inl e \<Rightarrow> Inl e
              | Inr m' \<Rightarrow>
                 (case take_rows target sampled_indices of
                    Inl e \<Rightarrow> Inl e
                  | Inr target' \<Rightarrow> Inr (m', target')))))"

definition transform ::
  "(string \<Rightarrow> 'a::zero option) \<Rightarrow> (nat \<Rightarrow> nat) \<Rightarrow> train_normalize \<Rightarrow>
   string list \<Rightarrow> 'l list option \<Rightarrow> string option \<Rightarrow> error + ('a list list \<times> 'l list)" where
  "transform pyfloat draw self X y delimiter =
     (case np_zeros (window self) of
        Inl e \<Rightarrow> Inl e
      | Inr seed \<Rightarrow>
         (case assemble pyfloat self y delimiter (List.enumerate 0 X) (Arr1 seed, []) of
            Inl e \<Rightarrow> Inl e
          | Inr (normalized_trains, target) \<Rightarrow>
             (case normalized_trains of
                Arr1 v \<Rightarrow> Inl IndexError
              | Arr2 w m \<Rightarrow>
                 (case subsample draw (n_samples self) (tl m) target of
                    Inl e \<Rightarrow> Inl e
                  | Inr (m', target') \<Rightarrow>
                     (case vstack_rows m' of
                        Inl e \<Rightarrow> Inl e
                      | Inr rows \<Rightarrow> Inr (rows, target'))))))"

text \<open>
  The rows one series contributes, and the rows and labels of a whole run of the loop;
  they state what the loop computes.
\<close>

definition series_chunks ::
  "(string \<Rightarrow> 'a::zero option) \<Rightarrow> train_normalize \<Rightarrow> string option \<Rightarrow> string \<Rightarrow>
   'a list list" where
  "series_chunks pyfloat self delimiter s =
     (case string_to_float_series pyfloat s delimiter of
        Inl e \<Rightarrow> []
      | Inr a \<Rightarrow> (case rolling_window a (window self) (step self) of
                   Inr (Some chunks) \<Rightarrow> chunks
                 | _ \<Rightarrow> []))"

definition rows_of :: "'a ndarray \<Rightarrow> 'a list list" where
  "rows_of arr = (case arr of Arr1 v \<Rightarrow> [v] | Arr2 w m \<Rightarrow> m)"

definition width :: "'a ndarray \<Rightarrow> nat" where
  "width arr = (case arr of Arr1 v \<Rightarrow> length v | Arr2 w m \<Rightarrow> w)"

definition labels_of :: "'l list option \<Rightarrow> 'l list" where
  "labels_of y = (case y of None \<Rightarrow> [] | Some ys \<Rightarrow> ys)"

definition all_chunks ::
  "(string \<Rightarrow> 'a::zero option) \<Rightarrow> train_normalize \<Rightarrow> string option \<Rightarrow>
   (nat \<times> string) list \<Rightarrow> 'a list list" where
  "all_chunks pyfloat self delimiter es =
     concat (map (\<lambda>(i, s). series_chunks pyfloat self delimiter s) es)"

definition all_labels ::
  "(string \<Rightarrow> 'a::zero option) \<Rightarrow> train_normalize \<Rightarrow> 'l list option \<Rightarrow> string option \<Rightarrow>
   (nat \<times> string) list \<Rightarrow> 'l list" where
  "all_labels pyfloat self y delimiter es =
     concat (map (\<lambda>(i, s). replicate (length (series_chunks pyfloat self delimiter s))
                               (labels_of y ! i)) es)"

text \<open>The windows the specification asks of the segmenter: \<open>series[s*i : s*i+w]\<close>.\<close>

definition spec_windows :: "'a list \<Rightarrow> nat \<Rightarrow> nat \<Rightarrow> 'a list list" where
  "spec_windows a w s =
     map (\<lambda>i. take w (drop (s * i) a))
         [0..<nat (max 0 ((int (length a) - int w) div int s + 1))]"

section \<open>The group-aware split of \<^verbatim>\<open>load_fcx1\<close>\<close>

text \<open>
  \<^verbatim>\<open>
  group_split = GroupShuffleSplit(
      n_splits=1, test_size=test_size, random_state=random_seed)
  X = np.hstack([wake_spikes.series.values, sleep_spikes.series.values])
  y = np.hstack([np.ones(wake_spikes.shape[0]), np.zeros(sleep_spikes.shape[0])])
  groups = np.hstack([wake_spikes.groups.values, sleep_spikes.groups.values])
  for train_index, test_index in group_split.split(X, y, groups):
      X_train, X_test = X[train_index], X[test_index]
      y_train, y_test = y[train_index], y[test_index]
  X_train = pd.DataFrame({'series': X_train, 'groups': groups[train_index]})
  X_test = pd.DataFrame({'series': X_test, 'groups': groups[test_index]})
  \<close>
  \<^verbatim>\<open>GroupShuffleSplit\<close> belongs to scikit-learn. It is modelled after the library's
  algorithm: the distinct groups are sorted (\<^verbatim>\<open>np.unique\<close>), their positions are
  shuffled, the first \<open>n_test\<close> shuffled positions are the test groups and the next
  \<open>n_train\<close> the train groups, and a row goes where its group went. The shuffle is the
  parameter \<open>permutation\<close> (\<^verbatim>\<open>rng.permutation(n)\<close>). The product
  \<^verbatim>\<open>test_size * n\<close> is taken over the reals; the library takes it in binary64, where
  rounding can move \<open>n_test\<close> by one. Nothing proved below depends on the two counts.
\<close>

datatype test_size = Fraction real | Count int

definition validate_shuffle_split :: "nat \<Rightarrow> test_size option \<Rightarrow> error + (nat \<times> nat)" where
  "validate_shuffle_split n ts =
     (case (case ts of None \<Rightarrow> Fraction 0.2 | Some t \<Rightarrow> t) of
        Fraction f \<Rightarrow>
          if f \<le> 0 \<or> 1 \<le> f then Inl ValueError
          else (let n_test = nat \<lceil>f * real n\<rceil>; n_train = n - n_test
                in if n_train = 0 then Inl ValueError else Inr (n_train, n_test))
      | Count c \<Rightarrow>
          if c \<le> 0 \<or> int n \<le> c then Inl ValueError
          else (let n_test = nat c; n_train = n - n_test
                in if n_train = 0 then Inl ValueError else Inr (n_train, n_test)))"

definition index_of :: "'g list \<Rightarrow> 'g \<Rightarrow> nat" where
  "index_of classes g = length (takeWhile (\<lambda>c. c \<noteq> g) classes)"

definition group_shuffle_split ::
  "(nat \<Rightarrow> nat list) \<Rightarrow> test_size option \<Rightarrow> 'g::linorder list \<Rightarrow>
   error + (nat list \<times> nat list)" where
  "group_shuffle_split permutation ts groups =
     (let classes = sort (remdups groups);
          group_indices = map (index_of classes) groups
      in case validate_shuffle_split (length classes) ts of
           Inl e \<Rightarrow> Inl e
         | Inr (n_train, n_test) \<Rightarrow>
            (let perm = permutation (length classes);
                 ind_test = take n_test perm;
                 ind_train = take n_train (drop n_test perm);
                 train = filter (\<lambda>i. group_indices ! i \<in> set ind_train) [0..<length groups];
                 test = filter (\<lambda>i. group_indices ! i \<in> set ind_test) [0..<length groups]
             in Inr (train, test)))"

text \<open>
  A loaded table is the list of its rows, a series with its group identifier. A
  partition is the table of its series and groups, with its labels.
\<close>

type_synonym 'g spikes = "(string \<times> 'g) list"

definition load_fcx1_split ::
  "(nat \<Rightarrow> nat list) \<Rightarrow> test_size option \<Rightarrow> 'g::linorder spikes \<Rightarrow> 'g spikes \<Rightarrow>
   error + (('g spikes \<times> real list) \<times> ('g spikes \<times> real list))" where
  "load_fcx1_split permutation ts wake_spikes sleep_spikes =
     (let X = map fst wake_spikes @ map fst sleep_spikes;
          y = replicate (length wake_spikes) 1 @ replicate (length sleep_spikes) 0;
          groups = map snd wake_spikes @ map snd sleep_spikes
      in case group_shuffle_split permutation ts groups of
           Inl e \<Rightarrow> Inl e
         | Inr (train_index, test_index) \<Rightarrow>
            Inr ((zip (map ((!) X) train_index) (map ((!) groups) train_index),
                  map ((!) y) train_index),
                 (zip (map ((!) X) test_index) (map ((!) groups) test_index),
                  map ((!) y) test_index)))"

section \<open>Feature tables\<close>

text \<open>
  A pandas DataFrame is its row count and its columns in order, each a label with its
  values. \<^verbatim>\<open>df.loc[:, labels]\<close> builds a new table of the columns carrying the listed
  labels, in the listed order, and raises KeyError for a label the table does not have.
\<close>

record ('c, 'v) frame =
  nrows :: nat
  columns :: "('c \<times> 'v list) list"

definition column_set :: "('c, 'v) frame \<Rightarrow> 'c set" where
  "column_set df = set (map fst (columns df))"

definition loc_columns :: "('c, 'v) frame \<Rightarrow> 'c list \<Rightarrow> error + ('c, 'v) frame" where
  "loc_columns df labels =
     (if list_all (\<lambda>l. l \<in> column_set df) labels
      then Inr (df\<lparr>columns := concat (map (\<lambda>l. filter (\<lambda>c. fst c = l) (columns df)) labels)\<rparr>)
      else Inl KeyError)"

text \<open>
  \<^verbatim>\<open>
  def train_test_common_features(train_df, test_df):
      train_feature_set = set(train_df.columns.values)
      test_feature_set = set(test_df.columns.values)
      train_df = train_df.loc[:, train_feature_set.intersection(test_feature_set)]
      test_df = test_df.loc[:, train_feature_set.intersection(test_feature_set)]
      return train_df, test_df
  \<close>
  The indexer handed to \<^verbatim>\<open>.loc\<close> is a Python set, and what pandas does with a set
  depends on its version, which the repository does not pin. pandas before 2.0 reads the
  labels out of the set and selects them; the order in which it reads them is the
  parameter \<open>iter\<close>. pandas 2.0 and later refuses a set indexer and raises TypeError,
  for every table and every set. Which of the two runs is the parameter
  \<open>accepts_set\<close>.
\<close>

definition loc_set ::
  "bool \<Rightarrow> ('c set \<Rightarrow> 'c list) \<Rightarrow> ('c, 'v) frame \<Rightarrow> 'c set \<Rightarrow> error + ('c, 'v) frame" where
  "loc_set accepts_set iter df labels =
     (if accepts_set then loc_columns df (iter labels) else Inl TypeError)"

definition train_test_common_features ::
  "bool \<Rightarrow> ('c set \<Rightarrow> 'c list) \<Rightarrow> ('c, 'v) frame \<Rightarrow> ('c, 'v) frame \<Rightarrow>
   error + (('c, 'v) frame \<times> ('c, 'v) frame)" where
  "train_test_common_features accepts_set iter train_df test_df =
     (let train_feature_set = column_set train_df;
          test_feature_set = column_set test_df
      in case loc_set accepts_set iter train_df (train_feature_set \<inter> test_feature_set) of
           Inl e \<Rightarrow> Inl e
         | Inr train_df' \<Rightarrow>
            (case loc_set accepts_set iter test_df (train_feature_set \<inter> test_feature_set) of
               Inl e \<Rightarrow> Inl e
             | Inr test_df' \<Rightarrow> Inr (train_df', test_df')))"

section \<open>The preprocessing steps and their effect on the caller's table\<close>

text \<open>
  Tables are objects: a heap is the list of the tables allocated so far and a reference
  is a position in it. A step takes the heap and the reference of its argument and
  returns the new heap with the reference of its result.
\<close>

type_synonym ('c, 'v) heap = "('c, 'v) frame list"

definition df_copy :: "('c, 'v) heap \<Rightarrow> nat \<Rightarrow> ('c, 'v) heap \<times> nat" where
  "df_copy h X = (h @ [h ! X], length h)"

definition alloc :: "('c, 'v) heap \<Rightarrow> ('c, 'v) frame \<Rightarrow> ('c, 'v) heap \<times> nat" where
  "alloc h df = (h @ [df], length h)"

text \<open>
  \<^verbatim>\<open>
  class DFTransform(TransformerMixin, NoFitMixin):
      def __init__(self, func, copy=False):
          self.func = func
          self.copy = copy
      def transform(self, X):
          X_ = X if not self.copy else X.copy()
          return self.func(X_)
  \<close>
\<close>

record ('c, 'v) dftransform =
  func :: "('c, 'v) heap \<Rightarrow> nat \<Rightarrow> error + (('c, 'v) heap \<times> nat)"
  copy :: bool

definition DFTransform_transform ::
  "('c, 'v) dftransform \<Rightarrow> ('c, 'v) heap \<Rightarrow> nat \<Rightarrow> error + (('c, 'v) heap \<times> nat)" where
  "DFTransform_transform self h X =
     (if \<not> copy self then func self h X
      else (case df_copy h X of (h', X') \<Rightarrow> func self h' X'))"

text \<open>
  \<^verbatim>\<open>
  def _tsfresh_imputation(X):
      tsfresh_utils.impute(X)
      return X
  def _low_variance_removal(X):
      return X.loc[:, (X.std() / (1e-9 + X.mean())).abs() > 0.2]
  def _select_features(X, feature_list=None):
      feature_list = X.columns.value if feature_list is None else feature_list
      return X.loc[:, feature_list]
  \<close>
  tsfresh's \<^verbatim>\<open>impute\<close> rewrites its argument in place; what it writes is the parameter
  \<open>tsfresh_impute\<close>. The column statistics of pandas are the parameters \<open>std\<close> and
  \<open>mean\<close>. The quotient is a binary64 one: over a zero denominator it is infinite for
  a non-zero \<open>std\<close>, and the column is kept, and it is NaN for a zero \<open>std\<close>, and the
  column is dropped. A pandas Index has no attribute \<^verbatim>\<open>value\<close>.
\<close>

definition tsfresh_imputation ::
  "(('c, 'v) frame \<Rightarrow> ('c, 'v) frame) \<Rightarrow> ('c, 'v) heap \<Rightarrow> nat \<Rightarrow>
   error + (('c, 'v) heap \<times> nat)" where
  "tsfresh_imputation tsfresh_impute h X = Inr (h[X := tsfresh_impute (h ! X)], X)"

definition low_variance_removal ::
  "('v list \<Rightarrow> real) \<Rightarrow> ('v list \<Rightarrow> real) \<Rightarrow> ('c, 'v) heap \<Rightarrow> nat \<Rightarrow>
   error + (('c, 'v) heap \<times> nat)" where
  "low_variance_removal std mean h X =
     Inr (alloc h ((h ! X)\<lparr>columns :=
            filter (\<lambda>c. if 1 / 10 ^ 9 + mean (snd c) = 0 then std (snd c) \<noteq> 0
                        else \<bar>std (snd c) / (1 / 10 ^ 9 + mean (snd c))\<bar> > 0.2)
                   (columns (h ! X))\<rparr>))"

definition select_features ::
  "'c list option \<Rightarrow> ('c, 'v) heap \<Rightarrow> nat \<Rightarrow> error + (('c, 'v) heap \<times> nat)" where
  "select_features feature_list h X =
     (case feature_list of
        None \<Rightarrow> Inl AttributeError
      | Some labels \<Rightarrow> (case loc_columns (h ! X) labels of
                         Inl e \<Rightarrow> Inl e
                       | Inr df \<Rightarrow> Inr (alloc h df)))"

text \<open>
  \<^verbatim>\<open>
  def construct_pipeline(self):
      chained_transformers = []
      if self.keep_features_list is not None:
          chained_transformers.append(('select_features', DFTransform(
              partial(_select_features, feature_list=self.keep_features_list))))
      if self.impute:
          chained_transformers.append(('imputation', DFTransform(_tsfresh_imputation)))
      if self.do_scaling:
          chained_transformers.append(('standard_scaling', StandardScaler))
      if self.remove_low_variance:
          chained_transformers.append(
              ('low_var_removal', DFTransform(_low_variance_removal, copy=True)))
      return Pipeline(chained_transformers)
  \<close>
  The scaling step is the class \<^verbatim>\<open>StandardScaler\<close> of scikit-learn itself.
\<close>

record 'c preprocessor =
  impute :: bool
  do_scaling :: bool
  remove_low_variance :: bool
  keep_features_list :: "'c list option"

datatype ('c, 'v) pipeline_step = DF "('c, 'v) dftransform" | StandardScaler

definition construct_pipeline ::
  "(('c, 'v) frame \<Rightarrow> ('c, 'v) frame) \<Rightarrow> ('v list \<Rightarrow> real) \<Rightarrow> ('v list \<Rightarrow> real) \<Rightarrow>
   'c preprocessor \<Rightarrow> (string \<times> ('c, 'v) pipeline_step) list" where
  "construct_pipeline tsfresh_impute std mean self =
     (if keep_features_list self \<noteq> None
      then [(''select_features'',
             DF \<lparr>func = select_features (keep_features_list self), copy = False\<rparr>)]
      else [])
     @ (if impute self
        then [(''imputation'', DF \<lparr>func = tsfresh_imputation tsfresh_impute, copy = False\<rparr>)]
        else [])
     @ (if do_scaling self then [(''standard_scaling'', StandardScaler)] else [])
     @ (if remove_low_variance self
        then [(''low_var_removal'', DF \<lparr>func = low_variance_removal std mean, copy = True\<rparr>)]
        else [])"

text \<open>Running the step a pipeline holds under a name, where it is a \<^verbatim>\<open>DFTransform\<close>.\<close>

definition run_step ::
  "(string \<times> ('c, 'v) pipeline_step) list \<Rightarrow> string \<Rightarrow> ('c, 'v) heap \<Rightarrow> nat \<Rightarrow>
   (error + (('c, 'v) heap \<times> nat)) option" where
  "run_step steps name h X =
     (case map_of steps name of
        Some (DF t) \<Rightarrow> Some (DFTransform_transform t h X)
      | _ \<Rightarrow> None)"

section \<open>The feature taxonomy\<close>

text \<open>
  A feature dictionary maps a feature name to \<open>None\<close> (no parameter) or to its list of
  parameterisations. \<^verbatim>\<open>np.arange\<close> is read over the reals.
\<close>

datatype pvalue = PNum real | PStr string | PBool bool | PList "pvalue list"

type_synonym fc_value = "(string \<times> pvalue) list list option"

definition arange :: "real \<Rightarrow> real \<Rightarrow> real \<Rightarrow> real list" where
  "arange start stop stp =
     map (\<lambda>i. start + real i * stp) [0..<nat \<lceil>(stop - start) / stp\<rceil>]"

definition distribution_features_list :: "(string \<times> fc_value) list" where
  "distribution_features_list =
     [(''symmetry_looking'', Some (map (\<lambda>v. [(''r'', PNum v)]) (arange 0.05 1.0 0.05))),
      (''standard_deviation'', None),
      (''kurtosis'', None),
      (''variance_larger_than_standard_deviation'', None),
      (''ratio_beyond_r_sigma'',
         Some (map (\<lambda>v. [(''r'', PNum v)]) [1, 1.5, 2, 2.5, 3, 5, 6, 7, 10])),
      (''count_below_mean'', None),
      (''maximum'', None),
      (''variance'', None),
      (''abs_energy'', None),
      (''mean'', None),
      (''skewness'', None),
      (''length'', None),
      (''large_standard_deviation'',
         Some (map (\<lambda>v. [(''r'', PNum v)]) (arange 0.05 1.0 0.05))),
      (''count_above_mean'', None),
      (''minimum'', None),
      (''sum_values'', None),
      (''quantile'', Some (map (\<lambda>v. [(''q'', PNum v)]) (arange 0.1 1.0 0.1))),
      (''ratio_value_number_to_time_series_length'', None),
      (''median'', None)]"

definition distribution_features_tsfresh_dict :: "string \<rightharpoonup> fc_value" where
  "distribution_features_tsfresh_dict = map_of distribution_features_list"

text \<open>
  \<^verbatim>\<open>
  def get_feature_dict(feature_set=None):
      full_feature_dict = ComprehensiveFCParameters()
      simple_baseline_features = {key: None for key in ['abs_energy', 'mean',
          'median', 'minimum', 'maximum', 'standard_deviation']}
      distribution_features_dict = utils.distribution_features_tsfresh_dict()
      temporal_feature_dict = {
          key: full_feature_dict[key]
          for key in set(full_feature_dict) - set(distribution_features_dict)}
      feature_dict = {
          'simple_baseline': simple_baseline_features,
          'distribution_features': distribution_features_dict,
          'temporal_features': temporal_feature_dict}
      return feature_dict.get(feature_set, full_feature_dict)
  \<close>
  The catalog \<^verbatim>\<open>ComprehensiveFCParameters()\<close> belongs to tsfresh; it is the parameter
  \<open>full_feature_dict\<close>.
\<close>

definition simple_baseline_features :: "string \<rightharpoonup> fc_value" where
  "simple_baseline_features =
     map_of (map (\<lambda>key. (key, None))
       [''abs_energy'', ''mean'', ''median'', ''minimum'', ''maximum'',
        ''standard_deviation''])"

definition temporal_feature_dict :: "(string \<rightharpoonup> fc_value) \<Rightarrow> (string \<rightharpoonup> fc_value)" where
  "temporal_feature_dict full_feature_dict =
     full_feature_dict |` (dom full_feature_dict - dom distribution_features_tsfresh_dict)"

definition get_feature_dict ::
  "(string \<rightharpoonup> fc_value) \<Rightarrow> string option \<Rightarrow> (string \<rightharpoonup> fc_value)" where
  "get_feature_dict full_feature_dict feature_set =
     (case feature_set of
        None \<Rightarrow> full_feature_dict
      | Some name \<Rightarrow>
         (case map_of
                 [(''simple_baseline'', simple_baseline_features),
                  (''distribution_features'', distribution_features_tsfresh_dict),
                  (''temporal_features'', temporal_feature_dict full_feature_dict)] name of
            None \<Rightarrow> full_feature_dict
          | Some d \<Rightarrow> d))"

section \<open>Properties of the segmenter\<close>

lemma slice_roll_window:
  assumes "0 < w" "0 \<le> k" "k + w \<le> int (length a)"
  shows "slice_to (roll a (- k)) w = take (nat w) (drop (nat k) a)"
proof -
  from assms have ne: "a \<noteq> []" by auto
  from assms have km: "k mod int (length a) = k" by simp
  have "roll a (- k) = rotate (nat k) a" using ne km by (simp add: roll_def)
  also have "\<dots> = drop (nat k) a @ take (nat k) a"
    using assms by (simp add: rotate_drop_take nat_less_iff)
  finally show ?thesis using assms by (simp add: slice_to_def)
qed

lemma chunk_in_range:
  assumes "0 < s" "int i < n_chunks a w s"
  shows "s * int i + w \<le> int (length a)"
proof -
  have "int i \<le> (int (length a) - w) div s" using assms(2) by (simp add: n_chunks_def)
  then have "s * int i \<le> s * ((int (length a) - w) div s)"
    using assms(1) by (simp add: mult_left_mono)
  also have "\<dots> \<le> int (length a) - w"
  proof -
    have "s * ((int (length a) - w) div s) + (int (length a) - w) mod s = int (length a) - w"
      by simp
    moreover have "0 \<le> (int (length a) - w) mod s" using assms(1) by simp
    ultimately show ?thesis by linarith
  qed
  finally show ?thesis by simp
qed

lemma split_chunks_windows:
  assumes "0 < w" "0 < s"
  shows "split_chunks a w s = spec_windows a (nat w) (nat s)"
proof -
  have n: "n_chunks a w s = (int (length a) - int (nat w)) div int (nat s) + 1"
    using assms by (simp add: n_chunks_def)
  have "slice_to (roll a (- s * int i)) w = take (nat w) (drop (nat s * i) a)"
    if "i < nat (n_chunks a w s)" for i
  proof -
    from that have "int i < n_chunks a w s" by simp
    then have "s * int i + w \<le> int (length a)" using assms(2) by (rule chunk_in_range[rotated])
    moreover have "0 \<le> s * int i" using assms by simp
    ultimately have "slice_to (roll a (- (s * int i))) w = take (nat w) (drop (nat (s * int i)) a)"
      using assms(1) by (intro slice_roll_window) auto
    moreover have "nat (s * int i) = nat s * i" using assms by (simp add: nat_mult_distrib)
    ultimately show ?thesis by simp
  qed
  moreover have "nat (max 0 (n_chunks a w s)) = nat (n_chunks a w s)"
    by (simp add: max_def)
  ultimately show ?thesis
    unfolding split_chunks_def spec_windows_def py_range_def n[symmetric]
    by (simp add: comp_def)
qed

lemma length_spec_windows:
  "length (spec_windows a w s) = nat (max 0 ((int (length a) - int w) div int s + 1))"
  by (simp add: spec_windows_def)

lemma spec_windows_row_length:
  assumes "0 < s" "r \<in> set (spec_windows a w s)"
  shows "length r = w"
proof -
  have "nat (max 0 ((int (length a) - int w) div int s + 1))
          = nat ((int (length a) - int w) div int s + 1)"
    by (simp add: max_def)
  with assms(2) obtain i where i: "i < nat ((int (length a) - int w) div int s + 1)"
    and r: "r = take w (drop (s * i) a)"
    by (auto simp: spec_windows_def)
  from i have "int i < n_chunks a (int w) (int s)" by (simp add: n_chunks_def)
  with assms(1) have "int s * int i + int w \<le> int (length a)"
    by (intro chunk_in_range) auto
  then have "s * i + w \<le> length a" by (metis of_nat_add of_nat_mult of_nat_le_iff)
  with r show ?thesis by simp
qed

text \<open>
  On positive parameters the segmenter computes the windows of the specification, and
  returns them unless every value in them is zero.
\<close>

lemma rolling_window_positive:
  assumes "0 < w" "0 < s"
  shows "rolling_window a w s =
           Inr (if np_any (spec_windows a (nat w) (nat s))
                then Some (spec_windows a (nat w) (nat s)) else None)"
  using assms by (simp add: rolling_window_def split_chunks_windows)

text \<open>
  C1. For every series of length \<open>N\<close> and positive window \<open>w\<close> and step \<open>s\<close> the segmenter
  should return the \<open>max 0 ((N - w) div s + 1)\<close> windows \<open>series[s*i : s*i+w]\<close>. The code
  tests \<^verbatim>\<open>split_chunks.any()\<close>, which looks at the values and not at the number of
  windows: the series \<open>[0, 0, 0]\<close> with window 3 and step 1 has the one window
  \<open>[0, 0, 0]\<close>, and the code returns \<open>None\<close> for it.
\<close>

theorem rolling_window_all_zero_dropped:
  "rolling_window [0, 0, 0 :: real] 3 1 = Inr None \<and>
   spec_windows [0, 0, 0 :: real] 3 1 = [[0, 0, 0]]"
  by (simp add: rolling_window_def split_chunks_def n_chunks_def py_range_def slice_to_def
        roll_def np_any_def spec_windows_def)

text \<open>
  The segmenter checks neither argument. A zero step fails in the division, with
  ZeroDivisionError; a non-positive window and a negative step raise nothing, and the
  rows returned are rotations of the series.
\<close>

theorem rolling_window_no_config_error:
  "rolling_window [1, 2, 3 :: real] 2 0 = Inl ZeroDivisionError \<and>
   rolling_window [1, 2, 3 :: real] (- 1) 1 = Inr (Some [[1, 2], [2, 3], [3, 1], [1, 2], [2, 3]]) \<and>
   rolling_window [1, 2, 3 :: real] 5 (- 1) = Inr (Some [[1, 2, 3], [3, 1, 2], [2, 3, 1]])"
  by (simp add: rolling_window_def split_chunks_def n_chunks_def py_range_def slice_to_def
        roll_def np_any_def upt_conv_Cons rotate_def eval_nat_numeral)

text \<open>
  C6, as the code has it. The segmenter validates neither window nor step: with a zero
  step it fails with ZeroDivisionError, and with any other step it raises nothing,
  whatever the sign of the window and of the step.
\<close>

theorem rolling_window_unvalidated:
  "rolling_window a w 0 = Inl ZeroDivisionError \<and>
   (s \<noteq> 0 \<longrightarrow> (\<exists>r. rolling_window a w s = Inr r))"
  by (simp add: rolling_window_def)

theorem rolling_window_unvalidated_witness:
  "rolling_window [1, 2, 3 :: real] 0 0 = Inl ZeroDivisionError \<and>
   (- 2 :: int) \<noteq> 0 \<and> (\<exists>r. rolling_window [1, 2, 3 :: real] 0 (- 2) = Inr r)"
  using rolling_window_unvalidated [of "[1, 2, 3 :: real]" 0 "- 2"] by simp

subsection \<open>The passthrough encoder\<close>

lemma float_all_eq:
  "float_all pyfloat toks =
     (if \<forall>t\<in>set toks. pyfloat t \<noteq> None
      then Inr (map (\<lambda>t. the (pyfloat t)) toks) else Inl ValueError)"
  by (induction toks) (auto split: option.splits)

lemma str_split_Inl: "str_split s d = Inl e \<longleftrightarrow> d = Some [] \<and> e = ValueError"
  by (auto simp: str_split_def split: option.splits)

text \<open>
  The string \<open>1\<close> is numeric and parses under the comma and under whitespace; under
  the empty separator the split itself raises ValueError, with no token at fault.
\<close>

theorem string_to_float_series_empty_separator:
  "string_to_float_series (map_of [(''1'', 1 :: real)]) ''1'' (Some '''') = Inl ValueError \<and>
   string_to_float_series (map_of [(''1'', 1 :: real)]) ''1'' (Some '','') = Inr [1] \<and>
   string_to_float_series (map_of [(''1'', 1 :: real)]) ''1'' None = Inr [1]"
  by (simp add: string_to_float_series_def str_split_def isspace_def)

text \<open>
  C7, as the code has it. The parse fails with ValueError when the delimiter is the
  empty string; for every other delimiter (\<open>None\<close> meaning whitespace) it returns the
  values of the tokens, in order and unchanged, when \<open>float\<close> accepts every token, and
  fails with ValueError when \<open>float\<close> rejects some token.
\<close>

theorem string_to_float_series_result:
  "(d = Some [] \<longrightarrow> string_to_float_series pyfloat s d = Inl ValueError) \<and>
   (d \<noteq> Some [] \<longrightarrow>
      (\<exists>toks. str_split s d = Inr toks \<and>
         ((\<forall>t\<in>set toks. pyfloat t \<noteq> None) \<longrightarrow>
            string_to_float_series pyfloat s d = Inr (map (\<lambda>t. the (pyfloat t)) toks)) \<and>
         ((\<exists>t\<in>set toks. pyfloat t = None) \<longrightarrow>
            string_to_float_series pyfloat s d = Inl ValueError)))"
proof (cases "d = Some []")
  case True
  then show ?thesis by (simp add: string_to_float_series_def str_split_def)
next
  case False
  then obtain toks where toks: "str_split s d = Inr toks"
    by (cases "str_split s d") (auto simp: str_split_Inl)
  have "string_to_float_series pyfloat s d = Inr (map (\<lambda>t. the (pyfloat t)) toks)"
    if "\<forall>t\<in>set toks. pyfloat t \<noteq> None"
    using that toks by (simp add: string_to_float_series_def float_all_eq)
  moreover have "string_to_float_series pyfloat s d = Inl ValueError"
    if "\<exists>t\<in>set toks. pyfloat t = None"
    using that toks by (auto simp: string_to_float_series_def float_all_eq)
  ultimately show ?thesis using False toks by blast
qed

theorem string_to_float_series_result_witness:
  "string_to_float_series (map_of [(''1'', 1 :: real), (''2'', 2)]) ''1,2'' (Some '','')
     = Inr [1, 2] \<and>
   string_to_float_series (map_of [(''1'', 1 :: real), (''2'', 2)]) ''1 2'' (Some '','')
     = Inl ValueError \<and>
   string_to_float_series (map_of [(''1'', 1 :: real), (''2'', 2)]) ''1,x'' (Some '''')
     = Inl ValueError"
proof -
  let ?f = "map_of [(''1'', 1 :: real), (''2'', 2)]"
  have a: "str_split ''1,2'' (Some '','') = Inr [''1'', ''2'']"
    by (simp add: str_split_def)
  have b: "str_split ''1 2'' (Some '','') = Inr [''1 2'']"
    by (simp add: str_split_def)
  from string_to_float_series_result [of "Some '',''" ?f "''1,2''"] a
  have 1: "string_to_float_series ?f ''1,2'' (Some '','') = Inr [1, 2]" by simp
  from string_to_float_series_result [of "Some '',''" ?f "''1 2''"] b
  have 2: "string_to_float_series ?f ''1 2'' (Some '','') = Inl ValueError" by simp
  from string_to_float_series_result [of "Some ''''" ?f "''1,x''"]
  have 3: "string_to_float_series ?f ''1,x'' (Some '''') = Inl ValueError" by simp
  from 1 2 3 show ?thesis by simp
qed

section \<open>Properties of the dataset assembler\<close>

lemma rolling_window_Some_nonempty:
  "rolling_window a w s = Inr (Some chunks) \<Longrightarrow> chunks \<noteq> []"
  by (auto simp: rolling_window_def np_any_def split: if_splits)

lemma vstack2_rows:
  "vstack2 acc chunks = Inr stacked \<Longrightarrow> rows_of stacked = rows_of acc @ chunks \<and> (\<exists>w m. stacked = Arr2 w m)"
  by (auto simp: vstack2_def rows_of_def split: ndarray.splits if_splits)

lemma assemble_inv:
  "assemble pyfloat self y delimiter es (acc, target) = Inr (acc', target') \<Longrightarrow>
     rows_of acc' = rows_of acc @ all_chunks pyfloat self delimiter es \<and>
     target' = target @ all_labels pyfloat self y delimiter es \<and>
     (all_chunks pyfloat self delimiter es = [] \<longrightarrow> acc' = acc) \<and>
     (all_chunks pyfloat self delimiter es \<noteq> [] \<longrightarrow> (\<exists>w m. acc' = Arr2 w m))"
proof (induction es arbitrary: acc target)
  case Nil
  then show ?case by (simp add: all_chunks_def all_labels_def)
next
  case (Cons e es)
  obtain i s where e: "e = (i, s)" by (cases e)
  from Cons.prems e obtain a where a: "string_to_float_series pyfloat s delimiter = Inr a"
    by (auto split: sum.splits)
  from Cons.prems e a obtain r where r: "rolling_window a (window self) (step self) = Inr r"
    by (auto split: sum.splits)
  show ?case
  proof (cases r)
    case None
    with Cons.prems e a r have "assemble pyfloat self y delimiter es (acc, target) = Inr (acc', target')"
      by simp
    from Cons.IH[OF this] show ?thesis
      using e a r None by (simp add: all_chunks_def all_labels_def series_chunks_def)
  next
    case (Some chunks)
    from Cons.prems e a r Some obtain stacked where st: "vstack2 acc chunks = Inr stacked"
      by (auto split: sum.splits)
    from Cons.prems e a r Some st obtain label where lb: "getitem y i = Inr label"
      by (auto split: sum.splits)
    from Cons.prems e a r Some st lb
    have rec: "assemble pyfloat self y delimiter es (stacked, target @ replicate (length chunks) label) = Inr (acc', target')"
      by simp
    have sc: "series_chunks pyfloat self delimiter s = chunks"
      using a r Some by (simp add: series_chunks_def)
    have ne: "chunks \<noteq> []" using r Some by (auto dest: rolling_window_Some_nonempty)
    have lab: "labels_of y ! i = label"
      using lb by (auto simp: getitem_def labels_of_def split: option.splits if_splits)
    from vstack2_rows[OF st] obtain w m where
      rs: "rows_of stacked = rows_of acc @ chunks" and arr: "stacked = Arr2 w m" by blast
    from Cons.IH[OF rec] rs arr sc ne lab e show ?thesis
      by (auto simp: all_chunks_def all_labels_def)
  qed
qed

lemma length_all_labels:
  "length (all_labels pyfloat self y delimiter es) = length (all_chunks pyfloat self delimiter es)"
  by (induction es) (auto simp: all_labels_def all_chunks_def)

lemma assemble_n_samples:
  "assemble pyfloat (self\<lparr>n_samples := k\<rparr>) y delimiter es acc = assemble pyfloat self y delimiter es acc"
  by (induction pyfloat self y delimiter es acc rule: assemble.induct)
     (auto split: sum.splits option.splits)


lemma vstack2_width:
  assumes "vstack2 acc chunks = Inr stacked" "\<forall>r\<in>set (rows_of acc). length r = width acc"
  shows "width stacked = width acc \<and> (\<forall>r\<in>set (rows_of stacked). length r = width acc)"
proof (cases acc)
  case (Arr1 v)
  with assms(1) have "stacked = Arr2 (length v) (v # chunks)" "\<forall>r\<in>set chunks. length r = length v"
    by (auto simp: vstack2_def list_all_iff split: if_splits)
  with Arr1 show ?thesis by (simp add: width_def rows_of_def)
next
  case (Arr2 w m)
  with assms(1) have "stacked = Arr2 w (m @ chunks)" "\<forall>r\<in>set chunks. length r = w"
    by (auto simp: vstack2_def list_all_iff split: if_splits)
  with Arr2 assms(2) show ?thesis by (auto simp: width_def rows_of_def)
qed

lemma assemble_width:
  "assemble pyfloat self y delimiter es (acc, target) = Inr (acc', target') \<Longrightarrow>
     \<forall>r\<in>set (rows_of acc). length r = width acc \<Longrightarrow>
     \<forall>r\<in>set (rows_of acc'). length r = width acc"
proof (induction es arbitrary: acc target)
  case Nil
  then show ?case by simp
next
  case (Cons e es)
  obtain i s where e: "e = (i, s)" by (cases e)
  from Cons.prems(1) e obtain a where a: "string_to_float_series pyfloat s delimiter = Inr a"
    by (auto split: sum.splits)
  from Cons.prems(1) e a obtain r where r: "rolling_window a (window self) (step self) = Inr r"
    by (auto split: sum.splits)
  show ?case
  proof (cases r)
    case None
    with Cons.prems(1) e a r have "assemble pyfloat self y delimiter es (acc, target) = Inr (acc', target')"
      by simp
    from Cons.IH[OF this Cons.prems(2)] show ?thesis .
  next
    case (Some chunks)
    from Cons.prems(1) e a r Some obtain stacked where st: "vstack2 acc chunks = Inr stacked"
      by (auto split: sum.splits)
    from Cons.prems(1) e a r Some st obtain label where lb: "getitem y i = Inr label"
      by (auto split: sum.splits)
    from Cons.prems(1) e a r Some st lb
    have rec: "assemble pyfloat self y delimiter es (stacked, target @ replicate (length chunks) label) = Inr (acc', target')"
      by simp
    from vstack2_width[OF st Cons.prems(2)]
    have w: "width stacked = width acc" and rs: "\<forall>r\<in>set (rows_of stacked). length r = width stacked"
      by simp_all
    from Cons.IH[OF rec rs] w show ?thesis by simp
  qed
qed

text \<open>What \<open>transform\<close> returns, in terms of the rows and labels of the loop.\<close>

lemma transform_Inr:
  assumes "transform pyfloat draw self X y delimiter = Inr (rows, target)"
  shows "subsample draw (n_samples self)
            (all_chunks pyfloat self delimiter (List.enumerate 0 X))
            (all_labels pyfloat self y delimiter (List.enumerate 0 X)) = Inr (rows, target)
          \<and> rows \<noteq> [] \<and> 0 \<le> window self
          \<and> (\<forall>r\<in>set (all_chunks pyfloat self delimiter (List.enumerate 0 X)). length r = nat (window self))"
proof -
  let ?es = "List.enumerate 0 X"
  from assms obtain seed :: "'a list" where seed: "np_zeros (window self) = Inr seed"
    by (auto simp: transform_def split: sum.splits)
  then have w0: "0 \<le> window self" and sd: "seed = replicate (nat (window self)) 0"
    by (auto simp: np_zeros_def split: if_splits)
  from assms seed obtain acc' target' where
    asm: "assemble pyfloat self y delimiter ?es (Arr1 seed, []) = Inr (acc', target')"
    by (auto simp: transform_def split: sum.splits)
  from assms seed asm obtain w m where arr: "acc' = Arr2 w m"
    by (auto simp: transform_def split: ndarray.splits)
  from assemble_inv[OF asm] arr
  have m: "m = seed # all_chunks pyfloat self delimiter ?es"
    and t: "target' = all_labels pyfloat self y delimiter ?es"
    by (auto simp: rows_of_def)
  from assemble_width[OF asm] arr m sd
  have wd: "\<forall>r\<in>set (all_chunks pyfloat self delimiter ?es). length r = nat (window self)"
    by (simp add: rows_of_def width_def)
  from assms seed asm arr m t
  have "subsample draw (n_samples self) (all_chunks pyfloat self delimiter ?es)
            (all_labels pyfloat self y delimiter ?es) = Inr (rows, target) \<and> rows \<noteq> []"
    by (simp add: transform_def vstack_rows_def split: sum.splits if_splits prod.splits)
  with w0 wd show ?thesis by simp
qed

lemma subsample_Inr:
  assumes "subsample draw k m target = Inr (rows, target')" "length target = length m"
  shows "length rows = length target' \<and> set rows \<subseteq> set m \<and> (k = None \<longrightarrow> rows = m \<and> target' = target)"
proof (cases k)
  case None
  with assms show ?thesis by (simp add: subsample_def)
next
  case (Some n)
  with assms obtain idx where idx: "random_choice draw (length m) n = Inr idx"
    by (auto simp: subsample_def split: sum.splits)
  with assms Some have r: "take_rows m idx = Inr rows" and t: "take_rows target idx = Inr target'"
    by (auto simp: subsample_def split: sum.splits)
  from r have "rows = map ((!) m) idx" "\<forall>i\<in>set idx. i < length m"
    by (auto simp: take_rows_def list_all_iff split: if_splits)
  moreover from t have "target' = map ((!) target) idx"
    by (auto simp: take_rows_def split: if_splits)
  ultimately show ?thesis using Some by auto
qed


subsection \<open>Subsampling\<close>

lemma random_choice_Inr:
  assumes "0 < a" "0 \<le> k"
  shows "random_choice draw a k = Inr (map (\<lambda>i. draw i mod a) [0..<nat k])"
  using assms by (simp add: random_choice_def)

lemma take_rows_Inr:
  assumes "\<forall>i\<in>set idx. i < length xs"
  shows "take_rows xs idx = Inr (map ((!) xs) idx)"
  using assms by (simp add: take_rows_def list_all_iff)

lemma transform_unsampled:
  assumes "transform pyfloat draw (self\<lparr>n_samples := None\<rparr>) X y delimiter = Inr (rows0, target0)"
  shows "rows0 = all_chunks pyfloat self delimiter (List.enumerate 0 X)
       \<and> target0 = all_labels pyfloat self y delimiter (List.enumerate 0 X)
       \<and> rows0 \<noteq> [] \<and> length target0 = length rows0
       \<and> (\<exists>seed w. np_zeros (window self) = Inr seed
             \<and> assemble pyfloat self y delimiter (List.enumerate 0 X) (Arr1 seed, [])
                 = Inr (Arr2 w (seed # rows0), target0))"
proof -
  let ?es = "List.enumerate 0 X"
  from assms obtain seed :: "'a list" where seed: "np_zeros (window self) = Inr seed"
    by (auto simp: transform_def split: sum.splits)
  from assms seed obtain acc' target' where
    asm: "assemble pyfloat self y delimiter ?es (Arr1 seed, []) = Inr (acc', target')"
    by (auto simp: transform_def assemble_n_samples split: sum.splits)
  from assms seed asm obtain w m where arr: "acc' = Arr2 w m"
    by (auto simp: transform_def assemble_n_samples split: ndarray.splits)
  from assemble_inv[OF asm] arr
  have m: "m = seed # all_chunks pyfloat self delimiter ?es"
    and t: "target' = all_labels pyfloat self y delimiter ?es"
    by (auto simp: rows_of_def)
  from assms seed asm arr m t
  have "rows0 = all_chunks pyfloat self delimiter ?es \<and> target0 = target' \<and> rows0 \<noteq> []"
    by (auto simp: transform_def assemble_n_samples subsample_def vstack_rows_def
             split: sum.splits if_splits)
  with t m arr seed asm show ?thesis
    by (auto simp: length_all_labels)
qed

text \<open>
  With two rows available, a request for two rows can return the first row twice, and a
  request for three rows returns three rows.
\<close>

theorem transform_subsample_duplicates:
  "transform (map_of [(''1'', 1 :: real), (''2'', 2), (''3'', 3)]) (\<lambda>i. 0)
     \<lparr>window = 2, step = 1, n_samples = Some 2\<rparr> [''1,2,3''] (Some [7 :: nat]) (Some '','')
     = Inr ([[1, 2], [1, 2]], [7, 7]) \<and>
   transform (map_of [(''1'', 1 :: real), (''2'', 2), (''3'', 3)]) (\<lambda>i. i)
     \<lparr>window = 2, step = 1, n_samples = Some 3\<rparr> [''1,2,3''] (Some [7 :: nat]) (Some '','')
     = Inr ([[1, 2], [2, 3], [1, 2]], [7, 7, 7])"
  by (simp add: transform_def np_zeros_def string_to_float_series_def str_split_def
        rolling_window_def split_chunks_def n_chunks_def py_range_def slice_to_def roll_def
        np_any_def upt_conv_Cons rotate_def eval_nat_numeral vstack2_def getitem_def
        subsample_def random_choice_def take_rows_def vstack_rows_def)

text \<open>
  C2, as the code has it. When the segmented dataset has the rows \<open>rows0\<close> with the
  labels \<open>target0\<close>, a request for \<open>k > 0\<close> samples returns exactly \<open>k\<close> rows, each drawn
  from the available rows independently of the others (so with replacement), and each
  label returned is the label of the row drawn with it. This holds whether or not \<open>k\<close>
  exceeds the number of rows.
\<close>

theorem transform_subsample:
  assumes "transform pyfloat draw (self\<lparr>n_samples := None\<rparr>) X y delimiter = Inr (rows0, target0)"
    and "0 < k"
  shows "transform pyfloat draw (self\<lparr>n_samples := Some k\<rparr>) X y delimiter
           = Inr (map ((!) rows0) (drawn_indices draw (length rows0) k),
                  map ((!) target0) (drawn_indices draw (length rows0) k))
         \<and> length (drawn_indices draw (length rows0) k) = nat k
         \<and> (\<forall>i\<in>set (drawn_indices draw (length rows0) k). i < length rows0)
         \<and> length target0 = length rows0"
proof -
  let ?idx = "drawn_indices draw (length rows0) k"
  from transform_unsampled[OF assms(1)] obtain seed w where
    ne: "rows0 \<noteq> []" and len: "length target0 = length rows0"
    and seed: "np_zeros (window self) = Inr seed"
    and asm: "assemble pyfloat self y delimiter (List.enumerate 0 X) (Arr1 seed, [])
                = Inr (Arr2 w (seed # rows0), target0)"
    by blast
  from ne have pos: "0 < length rows0" by simp
  have bound: "\<forall>i\<in>set ?idx. i < length rows0"
    using pos by (auto simp: drawn_indices_def)
  have n: "length ?idx = nat k" by (simp add: drawn_indices_def)
  have rc: "random_choice draw (length rows0) k = Inr ?idx"
    using pos assms(2) by (simp add: random_choice_Inr drawn_indices_def)
  have r1: "take_rows rows0 ?idx = Inr (map ((!) rows0) ?idx)"
    using bound by (rule take_rows_Inr)
  have r2: "take_rows target0 ?idx = Inr (map ((!) target0) ?idx)"
    using bound len by (intro take_rows_Inr) simp
  have sub: "subsample draw (Some k) rows0 target0
               = Inr (map ((!) rows0) ?idx, map ((!) target0) ?idx)"
    by (simp add: subsample_def rc r1 r2)
  have nonempty: "map ((!) rows0) ?idx \<noteq> []"
    using n assms(2) by (metis length_0_conv list.map_disc_iff nat_0_iff not_less)
  have "transform pyfloat draw (self\<lparr>n_samples := Some k\<rparr>) X y delimiter
          = Inr (map ((!) rows0) ?idx, map ((!) target0) ?idx)"
    using seed asm sub nonempty
    by (simp add: transform_def assemble_n_samples vstack_rows_def)
  with n bound len show ?thesis by simp
qed

theorem transform_subsample_witness:
  "transform (map_of [(''1'', 1 :: real), (''2'', 2), (''3'', 3)]) (\<lambda>i. i)
     \<lparr>window = 2, step = 1, n_samples = Some 3\<rparr> [''1,2,3''] (Some [7 :: nat]) (Some '','')
     = Inr ([[1, 2], [2, 3], [1, 2]], [7, 7, 7])"
proof -
  let ?f = "map_of [(''1'', 1 :: real), (''2'', 2), (''3'', 3)]"
  let ?self = "\<lparr>window = 2, step = 1, n_samples = Some 3\<rparr>"
  have u: "transform ?f (\<lambda>i. i) (?self\<lparr>n_samples := None\<rparr>) [''1,2,3''] (Some [7 :: nat]) (Some '','')
             = Inr ([[1, 2], [2, 3]], [7, 7])"
    by (simp add: transform_def np_zeros_def string_to_float_series_def str_split_def
        rolling_window_def split_chunks_def n_chunks_def py_range_def slice_to_def roll_def
        np_any_def upt_conv_Cons rotate_def eval_nat_numeral vstack2_def getitem_def
        subsample_def vstack_rows_def)
  have k: "(0 :: int) < 3" by simp
  from transform_subsample [OF u k] show ?thesis
    by (simp add: drawn_indices_def upt_conv_Cons eval_nat_numeral)
qed

lemma in_all_chunks:
  assumes "r \<in> set (all_chunks pyfloat self delimiter (List.enumerate n X))"
  shows "\<exists>s\<in>set X. r \<in> set (series_chunks pyfloat self delimiter s)"
proof -
  from assms obtain e where e: "e \<in> set (List.enumerate n X)"
    and r: "r \<in> set (series_chunks pyfloat self delimiter (snd e))"
    by (auto simp: all_chunks_def)
  from e have "snd e \<in> set X"
    by (metis in_set_enumerate_eq nth_mem add.commute less_diff_conv2)
  with r show ?thesis by blast
qed

lemma series_chunks_positive:
  assumes "0 < window self" "0 < step self" "r \<in> set (series_chunks pyfloat self delimiter s)"
  shows "\<exists>a. string_to_float_series pyfloat s delimiter = Inr a \<and>
             r \<in> set (spec_windows a (nat (window self)) (nat (step self)))"
proof -
  from assms(3) obtain a where a: "string_to_float_series pyfloat s delimiter = Inr a"
    by (cases "string_to_float_series pyfloat s delimiter") (auto simp: series_chunks_def)
  with assms show ?thesis
    by (auto simp: series_chunks_def rolling_window_positive split: if_splits)
qed

text \<open>
  A window cut from the data can be all zero while the series is not: the first output
  row here equals the seed row \<^verbatim>\<open>np.zeros(3)\<close>.
\<close>

theorem transform_zero_window_row:
  "transform (map_of [(''0'', 0 :: real), (''1'', 1)]) (\<lambda>i. i)
     \<lparr>window = 3, step = 1, n_samples = None\<rparr> [''0,0,0,1''] (Some [7 :: nat]) (Some '','')
     = Inr ([[0, 0, 0], [0, 0, 1]], [7, 7]) \<and>
   np_zeros 3 = Inr [0, 0, 0 :: real]"
  by (simp add: transform_def np_zeros_def string_to_float_series_def str_split_def
        rolling_window_def split_chunks_def n_chunks_def py_range_def slice_to_def roll_def
        np_any_def upt_conv_Cons rotate_def eval_nat_numeral vstack2_def getitem_def
        subsample_def vstack_rows_def)

text \<open>
  C4, as the code has it. The transform returns a window matrix and a label vector, and
  no group vector. They have equal length, every row has \<open>window\<close> columns, and the seed
  row is dropped: every output row is a window the segmenter cut from some input
  series, and without subsampling the rows are those windows in order, each with the
  label of its series. On positive window and step such a row is a slice
  \<open>series[s*i : s*i+w]\<close> of a parsed input series.
\<close>

theorem transform_rows_are_windows:
  assumes "transform pyfloat draw self X y delimiter = Inr (rows, target)"
  shows "length rows = length target
       \<and> (\<forall>r\<in>set rows. length r = nat (window self))
       \<and> set rows \<subseteq> set (all_chunks pyfloat self delimiter (List.enumerate 0 X))
       \<and> (n_samples self = None \<longrightarrow>
            rows = all_chunks pyfloat self delimiter (List.enumerate 0 X) \<and>
            target = all_labels pyfloat self y delimiter (List.enumerate 0 X))
       \<and> (0 < window self \<and> 0 < step self \<longrightarrow>
            (\<forall>r\<in>set rows. \<exists>s\<in>set X. \<exists>a. string_to_float_series pyfloat s delimiter = Inr a \<and>
                r \<in> set (spec_windows a (nat (window self)) (nat (step self)))))"
proof -
  let ?C = "all_chunks pyfloat self delimiter (List.enumerate 0 X)"
  let ?L = "all_labels pyfloat self y delimiter (List.enumerate 0 X)"
  from transform_Inr[OF assms]
  have sub: "subsample draw (n_samples self) ?C ?L = Inr (rows, target)"
    and wd: "\<forall>r\<in>set ?C. length r = nat (window self)"
    by simp_all
  have "length ?L = length ?C" by (rule length_all_labels)
  from subsample_Inr[OF sub this]
  have len: "length rows = length target" and ss: "set rows \<subseteq> set ?C"
    and un: "n_samples self = None \<longrightarrow> rows = ?C \<and> target = ?L"
    by simp_all
  have pos: "\<exists>s\<in>set X. \<exists>a. string_to_float_series pyfloat s delimiter = Inr a \<and>
                r \<in> set (spec_windows a (nat (window self)) (nat (step self)))"
    if "0 < window self" "0 < step self" "r \<in> set rows" for r
  proof -
    from that(3) ss have "r \<in> set ?C" by blast
    from in_all_chunks[OF this] obtain s where "s \<in> set X"
      and "r \<in> set (series_chunks pyfloat self delimiter s)" by blast
    with series_chunks_positive[OF that(1,2)] show ?thesis by blast
  qed
  from len wd ss un pos show ?thesis by blast
qed

theorem transform_rows_are_windows_witness:
  "all_chunks (map_of [(''0'', 0 :: real), (''1'', 1)])
      \<lparr>window = 3, step = 1, n_samples = None\<rparr> (Some '','')
      (List.enumerate 0 [''0,0,0,1'']) = [[0, 0, 0], [0, 0, 1]]
   \<and> all_labels (map_of [(''0'', 0 :: real), (''1'', 1)])
      \<lparr>window = 3, step = 1, n_samples = None\<rparr> (Some [7]) (Some '','')
      (List.enumerate 0 [''0,0,0,1'']) = [7, 7 :: nat]"
proof -
  let ?f = "map_of [(''0'', 0 :: real), (''1'', 1)]"
  let ?self = "\<lparr>window = 3, step = 1, n_samples = None\<rparr>"
  have t: "transform ?f (\<lambda>i. i) ?self [''0,0,0,1''] (Some [7 :: nat]) (Some '','')
             = Inr ([[0, 0, 0], [0, 0, 1]], [7, 7])"
    by (simp add: transform_def np_zeros_def string_to_float_series_def str_split_def
        rolling_window_def split_chunks_def n_chunks_def py_range_def slice_to_def roll_def
        np_any_def upt_conv_Cons rotate_def eval_nat_numeral vstack2_def getitem_def
        subsample_def vstack_rows_def)
  from transform_rows_are_windows [OF t] show ?thesis by simp
qed

subsection \<open>Series without windows\<close>

lemma assemble_append:
  "assemble pyfloat self y delimiter (es1 @ es2) acc =
     (case assemble pyfloat self y delimiter es1 acc of
        Inl e \<Rightarrow> Inl e
      | Inr acc' \<Rightarrow> assemble pyfloat self y delimiter es2 acc')"
  by (induction pyfloat self y delimiter es1 acc rule: assemble.induct)
     (auto split: sum.splits option.splits)

lemma assemble_relabel:
  assumes "\<forall>e\<in>set es. getitem y' (f (fst e)) = getitem y (fst e)"
  shows "assemble pyfloat self y' delimiter (map (apfst f) es) acc =
         assemble pyfloat self y delimiter es acc"
  using assms
proof (induction es arbitrary: acc)
  case Nil
  then show ?case by simp
next
  case (Cons e es)
  obtain i s where e: "e = (i, s)" by (cases e)
  obtain nt target where acc: "acc = (nt, target)" by (cases acc)
  from Cons.prems e have g: "getitem y' (f i) = getitem y i" by simp
  from Cons.prems have rest: "\<forall>e\<in>set es. getitem y' (f (fst e)) = getitem y (fst e)" by simp
  show ?case
    using Cons.IH[OF rest] g e acc
    by (simp split: sum.splits option.splits)
qed

lemma assemble_skip:
  assumes "string_to_float_series pyfloat s delimiter = Inr a"
    and "rolling_window a (window self) (step self) = Inr None"
  shows "assemble pyfloat self y delimiter ((i, s) # rest) acc =
         assemble pyfloat self y delimiter rest acc"
  using assms by (cases acc) simp

lemma getitem_append_left:
  "i < length y1 \<Longrightarrow> getitem (Some (y1 @ ys)) i = getitem (Some (y1 @ zs)) i"
  by (simp add: getitem_def nth_append)

lemma getitem_skip:
  "length y1 \<le> i \<Longrightarrow> getitem (Some (y1 @ l # y2)) (Suc i) = getitem (Some (y1 @ y2)) i"
  by (auto simp: getitem_def nth_append Suc_diff_le)

lemma transform_skip:
  assumes a: "string_to_float_series pyfloat s delimiter = Inr a"
    and r: "rolling_window a (window self) (step self) = Inr None"
    and len: "length y1 = length X1"
  shows "transform pyfloat draw self (X1 @ s # X2) (Some (y1 @ l # y2)) delimiter =
         transform pyfloat draw self (X1 @ X2) (Some (y1 @ y2)) delimiter"
proof -
  let ?n = "length X1"
  let ?y = "Some (y1 @ l # y2)" and ?y' = "Some (y1 @ y2)"
  have e1: "List.enumerate 0 (X1 @ s # X2)
              = List.enumerate 0 X1 @ (?n, s) # map (apfst Suc) (List.enumerate ?n X2)"
    by (simp add: enumerate_append_eq enumerate_Suc_eq)
  have e2: "List.enumerate 0 (X1 @ X2) = List.enumerate 0 X1 @ List.enumerate ?n X2"
    by (simp add: enumerate_append_eq)
  have left: "assemble pyfloat self ?y delimiter (List.enumerate 0 X1) acc
                = assemble pyfloat self ?y' delimiter (List.enumerate 0 X1) acc" for acc
  proof -
    have "\<forall>e\<in>set (List.enumerate 0 X1). getitem ?y (id (fst e)) = getitem ?y' (fst e)"
      using len by (auto simp: in_set_enumerate_eq intro: getitem_append_left)
    from assemble_relabel[OF this] show ?thesis by (simp add: apfst_def map_prod_def)
  qed
  have right: "assemble pyfloat self ?y delimiter (map (apfst Suc) (List.enumerate ?n X2)) acc
                = assemble pyfloat self ?y' delimiter (List.enumerate ?n X2) acc" for acc
  proof -
    have "\<forall>e\<in>set (List.enumerate ?n X2). getitem ?y (Suc (fst e)) = getitem ?y' (fst e)"
      using len by (auto simp: in_set_enumerate_eq intro: getitem_skip)
    from assemble_relabel[OF this] show ?thesis .
  qed
  have "assemble pyfloat self ?y delimiter (List.enumerate 0 (X1 @ s # X2)) acc
          = assemble pyfloat self ?y' delimiter (List.enumerate 0 (X1 @ X2)) acc" for acc
    unfolding e1 e2
    by (simp add: assemble_append left right assemble_skip[OF a r] split: sum.splits)
  then show ?thesis by (simp add: transform_def cong: sum.case_cong)
qed

lemma assemble_no_chunks:
  assumes "\<forall>e\<in>set es. \<exists>a. string_to_float_series pyfloat (snd e) delimiter = Inr a \<and>
              rolling_window a (window self) (step self) = Inr None"
  shows "assemble pyfloat self y delimiter es acc = Inr acc"
  using assms
proof (induction es)
  case Nil
  then show ?case by simp
next
  case (Cons e es)
  obtain i s where e: "e = (i, s)" by (cases e)
  from Cons.prems e obtain a where "string_to_float_series pyfloat s delimiter = Inr a"
    "rolling_window a (window self) (step self) = Inr None" by auto
  from assemble_skip[OF this, of y i es acc] Cons show ?case by (simp add: e)
qed

text \<open>
  A single series shorter than the window: nothing is ever stacked under the
  one-dimensional seed, and slicing it with two indices raises IndexError.
\<close>

theorem transform_no_window_index_error:
  "transform (map_of [(''1'', 1 :: real), (''2'', 2)]) (\<lambda>i. i)
     \<lparr>window = 3, step = 1, n_samples = None\<rparr> [''1,2''] (Some [7 :: nat]) (Some '','')
     = Inl IndexError"
  by (simp add: transform_def np_zeros_def string_to_float_series_def str_split_def
        rolling_window_def split_chunks_def n_chunks_def py_range_def np_any_def)

text \<open>
  C5, as the code has it. A series that yields no window is left out without any error:
  the result is the one of the input without that series and its label. When the
  window is not negative and every series parses and yields no window, the transform
  fails with IndexError; it returns no empty dataset.
\<close>

theorem transform_zero_window_series:
  "(string_to_float_series pyfloat s delimiter = Inr a \<and>
    rolling_window a (window self) (step self) = Inr None \<and> length y1 = length X1 \<longrightarrow>
      transform pyfloat draw self (X1 @ s # X2) (Some (y1 @ l # y2)) delimiter =
      transform pyfloat draw self (X1 @ X2) (Some (y1 @ y2)) delimiter) \<and>
   (0 \<le> window self \<and>
    (\<forall>s\<in>set X. \<exists>a. string_to_float_series pyfloat s delimiter = Inr a \<and>
        rolling_window a (window self) (step self) = Inr None) \<longrightarrow>
      transform pyfloat draw self X y delimiter = Inl IndexError)"
proof (intro conjI impI)
  assume "string_to_float_series pyfloat s delimiter = Inr a \<and>
    rolling_window a (window self) (step self) = Inr None \<and> length y1 = length X1"
  then show "transform pyfloat draw self (X1 @ s # X2) (Some (y1 @ l # y2)) delimiter =
      transform pyfloat draw self (X1 @ X2) (Some (y1 @ y2)) delimiter"
    by (auto intro: transform_skip)
next
  assume h: "0 \<le> window self \<and>
    (\<forall>s\<in>set X. \<exists>a. string_to_float_series pyfloat s delimiter = Inr a \<and>
        rolling_window a (window self) (step self) = Inr None)"
  then have "\<forall>e\<in>set (List.enumerate 0 X). \<exists>a. string_to_float_series pyfloat (snd e) delimiter = Inr a \<and>
              rolling_window a (window self) (step self) = Inr None"
    by (auto simp: in_set_enumerate_eq)
  from assemble_no_chunks[OF this, of y] h
  show "transform pyfloat draw self X y delimiter = Inl IndexError"
    by (simp add: transform_def np_zeros_def)
qed

theorem transform_zero_window_series_witness:
  "transform (map_of [(''1'', 1 :: real), (''2'', 2), (''3'', 3)]) (\<lambda>i. i)
     \<lparr>window = 3, step = 1, n_samples = None\<rparr> ([''1,2,3''] @ ''1,2'' # [''3,2,1''])
     (Some ([7 :: nat] @ 8 # [9])) (Some '','')
   = Inr ([[1, 2, 3], [3, 2, 1]], [7, 9]) \<and>
   transform (map_of [(''1'', 1 :: real), (''2'', 2), (''3'', 3)]) (\<lambda>i. i)
     \<lparr>window = 3, step = 1, n_samples = None\<rparr> [''1,2'', ''3''] (Some [7 :: nat, 8]) (Some '','')
   = Inl IndexError"
proof -
  let ?f = "map_of [(''1'', 1 :: real), (''2'', 2), (''3'', 3)]"
  let ?self = "\<lparr>window = 3, step = 1, n_samples = None\<rparr>"
  have p: "string_to_float_series ?f ''1,2'' (Some '','') = Inr [1, 2]"
    by (simp add: string_to_float_series_def str_split_def)
  have q: "string_to_float_series ?f ''3'' (Some '','') = Inr [3]"
    by (simp add: string_to_float_series_def str_split_def)
  have w: "rolling_window [1, 2 :: real] 3 1 = Inr None"
    by (simp add: rolling_window_def split_chunks_def n_chunks_def py_range_def np_any_def)
  have w': "rolling_window [3 :: real] 3 1 = Inr None"
    by (simp add: rolling_window_def split_chunks_def n_chunks_def py_range_def np_any_def)
  have t: "transform ?f (\<lambda>i. i) ?self ([''1,2,3''] @ [''3,2,1'']) (Some ([7 :: nat] @ [9])) (Some '','')
             = Inr ([[1, 2, 3], [3, 2, 1]], [7, 9])"
    by (simp add: transform_def np_zeros_def string_to_float_series_def str_split_def
        rolling_window_def split_chunks_def n_chunks_def py_range_def slice_to_def roll_def
        np_any_def upt_conv_Cons rotate_def eval_nat_numeral vstack2_def getitem_def
        subsample_def vstack_rows_def)
  note T = transform_zero_window_series
            [where pyfloat = ?f and s = "''1,2''" and delimiter = "Some '',''" and a = "[1, 2]"
               and self = ?self and ?y1.0 = "[7 :: nat]" and ?X1.0 = "[''1,2,3'']"
               and draw = "\<lambda>i. i" and ?X2.0 = "[''3,2,1'']" and l = 8 and ?y2.0 = "[9]"
               and X = "[''1,2'', ''3'']" and y = "Some [7 :: nat, 8]"]
  have h1: "string_to_float_series ?f ''1,2'' (Some '','') = Inr [1, 2] \<and>
            rolling_window [1, 2 :: real] (window ?self) (step ?self) = Inr None \<and>
            length [7 :: nat] = length [''1,2,3'']"
    using p w by simp
  have h2: "0 \<le> window ?self \<and>
            (\<forall>s\<in>set [''1,2'', ''3'']. \<exists>a. string_to_float_series ?f s (Some '','') = Inr a \<and>
                rolling_window a (window ?self) (step ?self) = Inr None)"
    using p q w w' by simp
  have 1: "transform ?f (\<lambda>i. i) ?self ([''1,2,3''] @ ''1,2'' # [''3,2,1''])
             (Some ([7 :: nat] @ 8 # [9])) (Some '','')
           = Inr ([[1, 2, 3], [3, 2, 1]], [7, 9])"
    by (simp only: T [THEN conjunct1, THEN mp, OF h1] t)
  have 2: "transform ?f (\<lambda>i. i) ?self [''1,2'', ''3''] (Some [7 :: nat, 8]) (Some '','')
           = Inl IndexError"
    by (rule T [THEN conjunct2, THEN mp, OF h2])
  from 1 2 show ?thesis by (rule conjI)
qed

section \<open>Properties of the group-aware split\<close>

lemma take_drop_disjoint:
  assumes "distinct p"
  shows "set (take a (drop b p)) \<inter> set (take b p) = {}"
proof -
  have "distinct (take b p @ drop b p)" using assms by simp
  then have "set (take b p) \<inter> set (drop b p) = {}" by (simp only: distinct_append)
  moreover have "set (take a (drop b p)) \<subseteq> set (drop b p)" by (rule set_take_subset)
  ultimately show ?thesis by blast
qed

lemma group_shuffle_split_Inr:
  assumes "group_shuffle_split permutation ts groups = Inr (train, test)"
  shows "\<exists>n_train n_test.
           train = filter (\<lambda>i. map (index_of (sort (remdups groups))) groups ! i
                      \<in> set (take n_train (drop n_test (permutation (length (sort (remdups groups)))))))
                    [0..<length groups] \<and>
           test = filter (\<lambda>i. map (index_of (sort (remdups groups))) groups ! i
                      \<in> set (take n_test (permutation (length (sort (remdups groups))))))
                    [0..<length groups]"
proof (cases "validate_shuffle_split (length (sort (remdups groups))) ts")
  case (Inl e)
  with assms show ?thesis by (simp add: group_shuffle_split_def Let_def)
next
  case (Inr nn)
  obtain n_train n_test where nn: "nn = (n_train, n_test)" by (cases nn)
  from assms Inr nn
  have "train = filter (\<lambda>i. map (index_of (sort (remdups groups))) groups ! i
                      \<in> set (take n_train (drop n_test (permutation (length (sort (remdups groups)))))))
                    [0..<length groups]"
    and "test = filter (\<lambda>i. map (index_of (sort (remdups groups))) groups ! i
                      \<in> set (take n_test (permutation (length (sort (remdups groups))))))
                    [0..<length groups]"
    by (simp_all add: group_shuffle_split_def Let_def)
  then show ?thesis by blast
qed

lemma group_shuffle_split_disjoint:
  assumes "distinct (permutation (length (sort (remdups groups))))"
    and "group_shuffle_split permutation ts groups = Inr (train, test)"
    and "i \<in> set train" "j \<in> set test"
  shows "groups ! i \<noteq> groups ! j \<and> i < length groups \<and> j < length groups"
proof -
  let ?classes = "sort (remdups groups)"
  let ?p = "permutation (length ?classes)"
  from group_shuffle_split_Inr[OF assms(2)] obtain n_train n_test where
    tr: "train = filter (\<lambda>i. map (index_of ?classes) groups ! i
                    \<in> set (take n_train (drop n_test ?p))) [0..<length groups]"
    and te: "test = filter (\<lambda>i. map (index_of ?classes) groups ! i
                    \<in> set (take n_test ?p)) [0..<length groups]"
    by blast
  from tr assms(3) have i: "i < length groups"
    and gi: "index_of ?classes (groups ! i) \<in> set (take n_train (drop n_test ?p))"
    by auto
  from te assms(4) have j: "j < length groups"
    and gj: "index_of ?classes (groups ! j) \<in> set (take n_test ?p)"
    by auto
  have dj: "set (take n_train (drop n_test ?p)) \<inter> set (take n_test ?p) = {}"
    using assms(1) by (rule take_drop_disjoint)
  have "groups ! i \<noteq> groups ! j"
  proof
    assume "groups ! i = groups ! j"
    with gi gj have "index_of ?classes (groups ! j)
        \<in> set (take n_train (drop n_test ?p)) \<inter> set (take n_test ?p)"
      by (simp only: IntI)
    with dj show False by (simp only: empty_iff)
  qed
  with i j show ?thesis by (simp only: simp_thms)
qed

text \<open>
  C3. The split of \<^verbatim>\<open>load_fcx1\<close> works on whole series, before any segmentation: each
  partition is made of rows of the loaded tables, and no group identifier occurs in both
  partitions, whatever the test size. The shuffle is any function that returns lists
  without repetition, as a permutation is.
\<close>

theorem load_fcx1_split_groups_disjoint:
  assumes "\<forall>n. distinct (permutation n)"
    and "load_fcx1_split permutation ts wake_spikes sleep_spikes
           = Inr ((train, y_train), (test, y_test))"
  shows "set (map snd train) \<inter> set (map snd test) = {}
       \<and> set train \<subseteq> set (wake_spikes @ sleep_spikes)
       \<and> set test \<subseteq> set (wake_spikes @ sleep_spikes)
       \<and> length y_train = length train \<and> length y_test = length test"
proof -
  let ?rows = "wake_spikes @ sleep_spikes"
  let ?X = "map fst wake_spikes @ map fst sleep_spikes"
  let ?groups = "map snd wake_spikes @ map snd sleep_spikes"
  from assms(2) obtain train_index test_index where
    gs: "group_shuffle_split permutation ts ?groups = Inr (train_index, test_index)"
    and tr: "train = zip (map ((!) ?X) train_index) (map ((!) ?groups) train_index)"
    and te: "test = zip (map ((!) ?X) test_index) (map ((!) ?groups) test_index)"
    and ly: "length y_train = length train_index" "length y_test = length test_index"
    by (auto simp: load_fcx1_split_def Let_def split: sum.splits prod.splits)
  have d: "distinct (permutation (length (sort (remdups ?groups))))" using assms(1) by simp
  note dj = group_shuffle_split_disjoint[OF d gs]
  have X: "?X = map fst ?rows" and G: "?groups = map snd ?rows" by simp_all
  have row: "(?X ! i, ?groups ! i) = ?rows ! i" if "i < length ?rows" for i
    using that unfolding X G by (simp add: nth_map del: map_append)
  have trm: "train = map (\<lambda>i. (?X ! i, ?groups ! i)) train_index"
    unfolding tr by (simp add: zip_map_map map2_map_map zip_same_conv_map del: map_append)
  have tem: "test = map (\<lambda>i. (?X ! i, ?groups ! i)) test_index"
    unfolding te by (simp add: zip_map_map zip_same_conv_map del: map_append)
  have bound_tr: "i < length ?rows" if "i \<in> set train_index" for i
  proof -
    from group_shuffle_split_Inr[OF gs] that have "i < length ?groups" by auto
    then show ?thesis by simp
  qed
  have bound_te: "i < length ?rows" if "i \<in> set test_index" for i
  proof -
    from group_shuffle_split_Inr[OF gs] that have "i < length ?groups" by auto
    then show ?thesis by simp
  qed
  have s1: "set train \<subseteq> set ?rows"
  proof
    fix r assume "r \<in> set train"
    then obtain i where i: "i \<in> set train_index" and r: "r = (?X ! i, ?groups ! i)"
      unfolding trm by auto
    from bound_tr[OF i] row[of i] r show "r \<in> set ?rows" by (metis nth_mem)
  qed
  have s2: "set test \<subseteq> set ?rows"
  proof
    fix r assume "r \<in> set test"
    then obtain i where i: "i \<in> set test_index" and r: "r = (?X ! i, ?groups ! i)"
      unfolding tem by auto
    from bound_te[OF i] row[of i] r show "r \<in> set ?rows" by (metis nth_mem)
  qed
  have disj: "set (map snd train) \<inter> set (map snd test) = {}"
  proof (rule ccontr)
    assume "set (map snd train) \<inter> set (map snd test) \<noteq> {}"
    then obtain g where g1: "g \<in> set (map snd train)" and g2: "g \<in> set (map snd test)" by blast
    from g1 obtain i where i: "i \<in> set train_index" and gi: "g = ?groups ! i"
      unfolding trm by auto
    from g2 obtain j where j: "j \<in> set test_index" and gj: "g = ?groups ! j"
      unfolding tem by auto
    from dj[OF i j] gi gj show False by simp
  qed
  have "length train = length train_index" "length test = length test_index"
    unfolding trm tem by simp_all
  with disj s1 s2 ly show ?thesis by simp
qed

theorem load_fcx1_split_groups_disjoint_witness:
  "load_fcx1_split (\<lambda>n. rev [0..<n]) (Some (Fraction 0.3))
     [(''1,2'', 5 :: nat), (''3,4'', 7), (''5,6'', 5)] [(''7,8'', 9), (''9,9'', 7)]
   = Inr (([(''1,2'', 5), (''3,4'', 7), (''5,6'', 5), (''9,9'', 7)], [1, 1, 1, 0]),
          ([(''7,8'', 9)], [0]))
   \<and> set (map snd [(''1,2'', 5 :: nat), (''3,4'', 7), (''5,6'', 5), (''9,9'', 7)])
       \<inter> set (map snd [(''7,8'', 9 :: nat)]) = {}"
proof -
  have e: "load_fcx1_split (\<lambda>n. rev [0..<n]) (Some (Fraction 0.3))
     [(''1,2'', 5 :: nat), (''3,4'', 7), (''5,6'', 5)] [(''7,8'', 9), (''9,9'', 7)]
   = Inr (([(''1,2'', 5), (''3,4'', 7), (''5,6'', 5), (''9,9'', 7)], [1, 1, 1, 0]),
          ([(''7,8'', 9)], [0]))"
    by code_simp
  have p: "\<forall>n. distinct ((\<lambda>n. rev [0..<n]) n)" by simp
  from load_fcx1_split_groups_disjoint [OF p e] e show ?thesis by blast
qed

section \<open>Properties of the feature taxonomy\<close>

lemma get_feature_dict_distribution:
  "get_feature_dict full (Some ''distribution_features'') = distribution_features_tsfresh_dict"
  by (simp add: get_feature_dict_def)

lemma get_feature_dict_temporal:
  "get_feature_dict full (Some ''temporal_features'') = temporal_feature_dict full"
  by (simp add: get_feature_dict_def)

lemma dom_temporal_feature_dict:
  "dom (temporal_feature_dict full) = dom full - dom distribution_features_tsfresh_dict"
  by (auto simp: temporal_feature_dict_def restrict_map_def dom_def)

lemma dom_distribution:
  "dom distribution_features_tsfresh_dict = set (map fst distribution_features_list)"
  by (simp add: distribution_features_tsfresh_dict_def dom_map_of_conv_image_fst)

lemma temporal_feature_dict_lookup:
  "k \<in> dom (temporal_feature_dict full) \<Longrightarrow> temporal_feature_dict full k = full k"
  by (auto simp: temporal_feature_dict_def restrict_map_def split: if_splits)

text \<open>
  C9. By default \<open>get_feature_dict\<close> returns the full catalog. The feature names of
  \<open>distribution_features\<close> are the nineteen names of the source, whatever the catalog;
  those of \<open>temporal_features\<close> are the names of the catalog that are not among them,
  each with the catalog's own parameters. So the two sets of names are disjoint, and
  their union is the set of names of the catalog, for every catalog that has the
  distribution feature names.
\<close>

theorem feature_taxonomy_partition:
  "get_feature_dict full None = full \<and>
   dom (get_feature_dict full (Some ''distribution_features''))
     = set (map fst distribution_features_list) \<and>
   dom (get_feature_dict full (Some ''temporal_features''))
     = dom full - dom (get_feature_dict full (Some ''distribution_features'')) \<and>
   (\<forall>k\<in>dom (get_feature_dict full (Some ''temporal_features'')).
      get_feature_dict full (Some ''temporal_features'') k = full k) \<and>
   dom (get_feature_dict full (Some ''distribution_features''))
     \<inter> dom (get_feature_dict full (Some ''temporal_features'')) = {} \<and>
   (dom (get_feature_dict full (Some ''distribution_features'')) \<subseteq> dom full \<longrightarrow>
      dom (get_feature_dict full (Some ''distribution_features''))
        \<union> dom (get_feature_dict full (Some ''temporal_features''))
      = dom full)"
proof -
  have n: "get_feature_dict full None = full" by (simp add: get_feature_dict_def)
  have d: "dom (get_feature_dict full (Some ''distribution_features''))
             = set (map fst distribution_features_list)"
    by (simp only: get_feature_dict_distribution dom_distribution)
  have t: "dom (get_feature_dict full (Some ''temporal_features''))
             = dom full - dom (get_feature_dict full (Some ''distribution_features''))"
    by (simp only: get_feature_dict_distribution get_feature_dict_temporal
          dom_temporal_feature_dict)
  have v: "\<forall>k\<in>dom (get_feature_dict full (Some ''temporal_features'')).
             get_feature_dict full (Some ''temporal_features'') k = full k"
    unfolding get_feature_dict_temporal by (blast intro: temporal_feature_dict_lookup)
  have i: "dom (get_feature_dict full (Some ''distribution_features''))
             \<inter> dom (get_feature_dict full (Some ''temporal_features'')) = {}"
    unfolding t by blast
  have u: "dom (get_feature_dict full (Some ''distribution_features''))
             \<union> dom (get_feature_dict full (Some ''temporal_features'')) = dom full"
    if "dom (get_feature_dict full (Some ''distribution_features'')) \<subseteq> dom full"
    unfolding t using that by blast
  from n d t v i u show ?thesis by blast
qed

theorem feature_taxonomy_partition_witness:
  "dom (get_feature_dict
          (map_of (distribution_features_list @
             [(''autocorrelation'', Some [[(''lag'', PNum 0)], [(''lag'', PNum 1)]]),
              (''number_peaks'', Some [[(''n'', PNum 1)]]),
              (''has_duplicate'', None)]))
          (Some ''distribution_features''))
     \<subseteq> dom (map_of (distribution_features_list @
             [(''autocorrelation'', Some [[(''lag'', PNum 0)], [(''lag'', PNum 1)]]),
              (''number_peaks'', Some [[(''n'', PNum 1)]]),
              (''has_duplicate'', None)])) \<and>
   dom (get_feature_dict
          (map_of (distribution_features_list @
             [(''autocorrelation'', Some [[(''lag'', PNum 0)], [(''lag'', PNum 1)]]),
              (''number_peaks'', Some [[(''n'', PNum 1)]]),
              (''has_duplicate'', None)]))
          (Some ''distribution_features''))
     \<union> dom (get_feature_dict
          (map_of (distribution_features_list @
             [(''autocorrelation'', Some [[(''lag'', PNum 0)], [(''lag'', PNum 1)]]),
              (''number_peaks'', Some [[(''n'', PNum 1)]]),
              (''has_duplicate'', None)]))
          (Some ''temporal_features''))
   = dom (map_of (distribution_features_list @
             [(''autocorrelation'', Some [[(''lag'', PNum 0)], [(''lag'', PNum 1)]]),
              (''number_peaks'', Some [[(''n'', PNum 1)]]),
              (''has_duplicate'', None)])) \<and>
   dom (get_feature_dict
          (map_of (distribution_features_list @
             [(''autocorrelation'', Some [[(''lag'', PNum 0)], [(''lag'', PNum 1)]]),
              (''number_peaks'', Some [[(''n'', PNum 1)]]),
              (''has_duplicate'', None)]))
          (Some ''temporal_features''))
   = {''autocorrelation'', ''number_peaks'', ''has_duplicate''}"
proof -
  let ?full = "map_of (distribution_features_list @
             [(''autocorrelation'', Some [[(''lag'', PNum 0)], [(''lag'', PNum 1)]]),
              (''number_peaks'', Some [[(''n'', PNum 1)]]),
              (''has_duplicate'', None)])"
  note T = feature_taxonomy_partition [of ?full]
  have names: "dom ?full = set (map fst distribution_features_list)
                 \<union> {''autocorrelation'', ''number_peaks'', ''has_duplicate''}"
    by (simp add: dom_map_of_conv_image_fst image_Un)
  have d: "dom (get_feature_dict ?full (Some ''distribution_features''))
             = set (map fst distribution_features_list)"
    using T by blast
  have h: "dom (get_feature_dict ?full (Some ''distribution_features'')) \<subseteq> dom ?full"
    unfolding d names by blast
  have u: "dom (get_feature_dict ?full (Some ''distribution_features''))
             \<union> dom (get_feature_dict ?full (Some ''temporal_features'')) = dom ?full"
    using T h by blast
  have fresh: "{''autocorrelation'', ''number_peaks'', ''has_duplicate''}
                 \<inter> set (map fst distribution_features_list) = {}"
    by (simp add: distribution_features_list_def)
  have "dom (get_feature_dict ?full (Some ''temporal_features''))
          = dom ?full - set (map fst distribution_features_list)"
    using T d by simp
  also have "\<dots> = {''autocorrelation'', ''number_peaks'', ''has_duplicate''}"
    unfolding names using fresh by blast
  finally have t: "dom (get_feature_dict ?full (Some ''temporal_features''))
          = {''autocorrelation'', ''number_peaks'', ''has_duplicate''}" .
  from h u t show ?thesis by (intro conjI)
qed

section \<open>Properties of the feature tables\<close>

lemma loc_columns_Inr:
  assumes "set labels \<subseteq> column_set df"
  shows "loc_columns df labels =
           Inr (df\<lparr>columns := concat (map (\<lambda>l. filter (\<lambda>c. fst c = l) (columns df)) labels)\<rparr>)"
  using assms by (auto simp: loc_columns_def list_all_iff)

lemma set_loc_columns:
  "set (concat (map (\<lambda>l. filter (\<lambda>c. fst c = l) cols) labels))
     = {c \<in> set cols. fst c \<in> set labels}"
  by auto

text \<open>
  Under a pandas that refuses set indexers the function fails at its first \<^verbatim>\<open>.loc\<close>,
  whatever the tables.
\<close>

theorem train_test_common_features_set_indexer_refused:
  "train_test_common_features False (\<lambda>S. filter (\<lambda>c. c \<in> S) [''c'', ''b'', ''a''])
     \<lparr>nrows = 2, columns = [(''a'', [1, 2 :: int]), (''b'', [3, 4])]\<rparr>
     \<lparr>nrows = 1, columns = [(''b'', [5]), (''c'', [6]), (''a'', [7])]\<rparr>
   = Inl TypeError"
  by (simp add: train_test_common_features_def loc_set_def)

text \<open>
  C10, as the code has it. Under a pandas that accepts a set indexer (before 2.0),
  \<open>train_test_common_features\<close> returns both tables restricted to the columns whose
  label occurs in both: the two results have the same set of labels, the intersection;
  each keeps its row count; and its columns are the columns of its input that carry a
  common label, values included, label by label in the order the set of common labels
  is read out, which is any enumeration of that set. Under a pandas that refuses a set
  indexer (2.0 and later) it raises TypeError for every pair of tables.
\<close>

theorem train_test_common_features_intersection:
  "(accepts_set \<and>
    set (iter (column_set train_df \<inter> column_set test_df))
      = column_set train_df \<inter> column_set test_df \<longrightarrow>
      (\<exists>train_df' test_df'.
           train_test_common_features accepts_set iter train_df test_df
             = Inr (train_df', test_df') \<and>
           column_set train_df' = column_set train_df \<inter> column_set test_df \<and>
           column_set test_df' = column_set train_df \<inter> column_set test_df \<and>
           nrows train_df' = nrows train_df \<and> nrows test_df' = nrows test_df \<and>
           columns train_df'
             = concat (map (\<lambda>l. filter (\<lambda>c. fst c = l) (columns train_df))
                        (iter (column_set train_df \<inter> column_set test_df))) \<and>
           columns test_df'
             = concat (map (\<lambda>l. filter (\<lambda>c. fst c = l) (columns test_df))
                        (iter (column_set train_df \<inter> column_set test_df))) \<and>
           set (columns train_df')
             = {c \<in> set (columns train_df). fst c \<in> column_set test_df} \<and>
           set (columns test_df')
             = {c \<in> set (columns test_df). fst c \<in> column_set train_df})) \<and>
   (\<not> accepts_set \<longrightarrow>
      train_test_common_features accepts_set iter train_df test_df = Inl TypeError)"
proof (intro conjI impI)
  assume "\<not> accepts_set"
  then show "train_test_common_features accepts_set iter train_df test_df = Inl TypeError"
    by (simp add: train_test_common_features_def loc_set_def)
next
  let ?C = "column_set train_df \<inter> column_set test_df"
  let ?l = "iter ?C"
  assume h: "accepts_set \<and> set ?l = ?C"
  then have acc: accepts_set and enum: "set ?l = ?C" by simp_all
  have a: "set ?l \<subseteq> column_set train_df" and b: "set ?l \<subseteq> column_set test_df"
    using enum by auto
  let ?tr = "train_df\<lparr>columns := concat (map (\<lambda>l. filter (\<lambda>c. fst c = l) (columns train_df)) ?l)\<rparr>"
  let ?te = "test_df\<lparr>columns := concat (map (\<lambda>l. filter (\<lambda>c. fst c = l) (columns test_df)) ?l)\<rparr>"
  have r: "train_test_common_features accepts_set iter train_df test_df = Inr (?tr, ?te)"
    using acc
    by (simp add: train_test_common_features_def loc_set_def Let_def
          loc_columns_Inr[OF a] loc_columns_Inr[OF b])
  have m1: "fst c \<in> column_set train_df" if "c \<in> set (columns train_df)" for c
    using that by (simp add: column_set_def)
  have m2: "fst c \<in> column_set test_df" if "c \<in> set (columns test_df)" for c
    using that by (simp add: column_set_def)
  have "set (columns ?tr) = {c \<in> set (columns train_df). fst c \<in> set ?l}"
    using set_loc_columns [of "columns train_df" ?l] by simp
  then have s1: "set (columns ?tr) = {c \<in> set (columns train_df). fst c \<in> column_set test_df}"
    unfolding enum using m1 by blast
  have "set (columns ?te) = {c \<in> set (columns test_df). fst c \<in> set ?l}"
    using set_loc_columns [of "columns test_df" ?l] by simp
  then have s2: "set (columns ?te) = {c \<in> set (columns test_df). fst c \<in> column_set train_df}"
    unfolding enum using m2 by blast
  have c1: "column_set ?tr = ?C"
  proof -
    have "column_set ?tr = fst ` set (columns ?tr)" by (simp add: column_set_def)
    also have "\<dots> = fst ` {c \<in> set (columns train_df). fst c \<in> column_set test_df}"
      by (simp only: s1)
    also have "\<dots> = ?C" by (force simp: column_set_def)
    finally show ?thesis .
  qed
  have c2: "column_set ?te = ?C"
  proof -
    have "column_set ?te = fst ` set (columns ?te)" by (simp add: column_set_def)
    also have "\<dots> = fst ` {c \<in> set (columns test_df). fst c \<in> column_set train_df}"
      by (simp only: s2)
    also have "\<dots> = ?C" by (force simp: column_set_def)
    finally show ?thesis .
  qed
  have k1: "columns ?tr = concat (map (\<lambda>l. filter (\<lambda>c. fst c = l) (columns train_df)) ?l)"
    and k2: "columns ?te = concat (map (\<lambda>l. filter (\<lambda>c. fst c = l) (columns test_df)) ?l)"
    and n1: "nrows ?tr = nrows train_df" and n2: "nrows ?te = nrows test_df"
    by simp_all
  show "\<exists>train_df' test_df'.
           train_test_common_features accepts_set iter train_df test_df
             = Inr (train_df', test_df') \<and>
           column_set train_df' = ?C \<and> column_set test_df' = ?C \<and>
           nrows train_df' = nrows train_df \<and> nrows test_df' = nrows test_df \<and>
           columns train_df'
             = concat (map (\<lambda>l. filter (\<lambda>c. fst c = l) (columns train_df)) ?l) \<and>
           columns test_df'
             = concat (map (\<lambda>l. filter (\<lambda>c. fst c = l) (columns test_df)) ?l) \<and>
           set (columns train_df')
             = {c \<in> set (columns train_df). fst c \<in> column_set test_df} \<and>
           set (columns test_df')
             = {c \<in> set (columns test_df). fst c \<in> column_set train_df}"
    using r c1 c2 n1 n2 k1 k2 s1 s2 by blast
qed

theorem train_test_common_features_intersection_witness:
  "train_test_common_features True (\<lambda>S. filter (\<lambda>c. c \<in> S) [''c'', ''b'', ''a''])
     \<lparr>nrows = 2, columns = [(''a'', [1, 2 :: int]), (''b'', [3, 4])]\<rparr>
     \<lparr>nrows = 1, columns = [(''b'', [5]), (''c'', [6]), (''a'', [7])]\<rparr>
   = Inr (\<lparr>nrows = 2, columns = [(''b'', [3, 4]), (''a'', [1, 2])]\<rparr>,
          \<lparr>nrows = 1, columns = [(''b'', [5]), (''a'', [7])]\<rparr>) \<and>
   train_test_common_features False (\<lambda>S. filter (\<lambda>c. c \<in> S) [''c'', ''b'', ''a''])
     \<lparr>nrows = 2, columns = [(''a'', [1, 2 :: int]), (''b'', [3, 4])]\<rparr>
     \<lparr>nrows = 1, columns = [(''b'', [5 :: int]), (''c'', [6]), (''a'', [7])]\<rparr>
   = Inl TypeError"
proof -
  let ?iter = "\<lambda>S. filter (\<lambda>c. c \<in> S) [''c'', ''b'', ''a'']"
  let ?tr = "\<lparr>nrows = 2, columns = [(''a'', [1, 2 :: int]), (''b'', [3, 4])]\<rparr>"
  let ?te = "\<lparr>nrows = 1, columns = [(''b'', [5 :: int]), (''c'', [6]), (''a'', [7])]\<rparr>"
  have h: "True \<and> set (?iter (column_set ?tr \<inter> column_set ?te)) = column_set ?tr \<inter> column_set ?te"
    by (auto simp: column_set_def)
  from train_test_common_features_intersection [of True ?iter ?tr ?te, THEN conjunct1, THEN mp, OF h]
  obtain tr te where "train_test_common_features True ?iter ?tr ?te = Inr (tr, te)" by blast
  then have 1: "train_test_common_features True ?iter ?tr ?te
      = Inr (\<lparr>nrows = 2, columns = [(''b'', [3, 4]), (''a'', [1, 2])]\<rparr>,
             \<lparr>nrows = 1, columns = [(''b'', [5]), (''a'', [7])]\<rparr>)"
    by (simp add: train_test_common_features_def loc_set_def loc_columns_def column_set_def)
  have f: "\<not> False" by simp
  from train_test_common_features_intersection [of False ?iter ?tr ?te, THEN conjunct2, THEN mp, OF f]
  have 2: "train_test_common_features False ?iter ?tr ?te = Inl TypeError" .
  from 1 2 show ?thesis by (rule conjI)
qed

section \<open>Properties of the preprocessing steps\<close>

lemma alloc_fresh:
  "alloc h df = (h', Y) \<Longrightarrow> take (length h) h' = h \<and> Y = length h \<and> Y < length h'"
  by (auto simp: alloc_def)

lemma select_features_fresh:
  assumes "select_features feature_list h X = Inr (h', Y)"
  shows "take (length h) h' = h \<and> Y = length h \<and> Y < length h'"
proof -
  from assms obtain labels df where "alloc h df = (h', Y)"
    by (auto simp: select_features_def split: option.splits sum.splits)
  then show ?thesis by (rule alloc_fresh)
qed

lemma low_variance_removal_fresh:
  "\<exists>h' Y. low_variance_removal std mean h X = Inr (h', Y) \<and>
           take (length h) h' = h \<and> Y = length h \<and> Y < length h'"
  by (simp add: low_variance_removal_def alloc_def)

lemma run_step_imputation:
  assumes "run_step (construct_pipeline tsfresh_impute std mean self) ''imputation'' h X = Some r"
  shows "r = DFTransform_transform \<lparr>func = tsfresh_imputation tsfresh_impute, copy = False\<rparr> h X"
  using assms
  by (auto simp: run_step_def construct_pipeline_def split: if_splits option.splits pipeline_step.splits)

lemma run_step_low_var_removal:
  assumes "run_step (construct_pipeline tsfresh_impute std mean self) ''low_var_removal'' h X = Some r"
  shows "r = DFTransform_transform \<lparr>func = low_variance_removal std mean, copy = True\<rparr> h X"
  using assms
  by (auto simp: run_step_def construct_pipeline_def split: if_splits option.splits pipeline_step.splits)

lemma run_step_select_features:
  assumes "run_step (construct_pipeline tsfresh_impute std mean self) ''select_features'' h X = Some r"
  shows "r = DFTransform_transform \<lparr>func = select_features (keep_features_list self), copy = False\<rparr> h X"
  using assms
  by (auto simp: run_step_def construct_pipeline_def split: if_splits option.splits pipeline_step.splits)

text \<open>
  The imputation step on a table with a missing value: the caller's table itself, at
  reference 0, holds the imputed values afterwards, and the step returns that same
  reference.
\<close>

theorem imputation_rewrites_input:
  "run_step
     (construct_pipeline (\<lambda>df. df\<lparr>columns := [(''f'', [Some 0])]\<rparr>) (\<lambda>vs. 1) (\<lambda>vs. 1)
        \<lparr>impute = True, do_scaling = False, remove_low_variance = True,
         keep_features_list = None\<rparr>)
     ''imputation'' [\<lparr>nrows = 1, columns = [(''f'', [None :: real option])]\<rparr>] 0
   = Some (Inr ([\<lparr>nrows = 1, columns = [(''f'', [Some 0])]\<rparr>], 0))"
  by (simp add: run_step_def construct_pipeline_def DFTransform_transform_def
        tsfresh_imputation_def)

text \<open>
  C8, as the code has it. The imputation step runs on the caller's table: it rewrites
  that table in place with what \<open>impute\<close> writes, and returns the same object. The
  low-variance step works on a copy and the selection step builds a new table: both
  leave every table that existed before unchanged and return a table allocated after
  them.
\<close>

theorem pipeline_steps_effect:
  "(\<forall>r. run_step (construct_pipeline tsfresh_impute std mean self) ''imputation'' h X = Some r \<longrightarrow>
        r = Inr (h[X := tsfresh_impute (h ! X)], X)) \<and>
   (\<forall>r. run_step (construct_pipeline tsfresh_impute std mean self) ''low_var_removal'' h X = Some r \<longrightarrow>
        (\<exists>h' Y. r = Inr (h', Y) \<and> take (length h) h' = h \<and> length h \<le> Y \<and> Y < length h')) \<and>
   (\<forall>r. run_step (construct_pipeline tsfresh_impute std mean self) ''select_features'' h X = Some r \<longrightarrow>
        (\<forall>h' Y. r = Inr (h', Y) \<longrightarrow> take (length h) h' = h \<and> length h \<le> Y \<and> Y < length h'))"
proof -
  let ?P = "construct_pipeline tsfresh_impute std mean self"
  have imp: "r = Inr (h[X := tsfresh_impute (h ! X)], X)"
    if "run_step ?P ''imputation'' h X = Some r" for r
    using run_step_imputation[OF that]
    by (simp add: DFTransform_transform_def tsfresh_imputation_def)
  have low: "\<exists>h' Y. r = Inr (h', Y) \<and> take (length h) h' = h \<and> length h \<le> Y \<and> Y < length h'"
    if "run_step ?P ''low_var_removal'' h X = Some r" for r
  proof -
    from run_step_low_var_removal[OF that]
    have r: "r = low_variance_removal std mean (h @ [h ! X]) (length h)"
      by (simp add: DFTransform_transform_def df_copy_def)
    from low_variance_removal_fresh[of std mean "h @ [h ! X]" "length h"]
    obtain h' Y where lv: "low_variance_removal std mean (h @ [h ! X]) (length h) = Inr (h', Y)"
      and tk: "take (length (h @ [h ! X])) h' = h @ [h ! X]" and Y: "Y = length (h @ [h ! X])"
      and Yl: "Y < length h'" by blast
    have "take (length h) h' = h"
    proof -
      have "take (length h) h' = take (length h) (take (length (h @ [h ! X])) h')"
        by (simp add: min_def)
      also have "\<dots> = take (length h) (h @ [h ! X])" by (simp only: tk)
      also have "\<dots> = h" by simp
      finally show ?thesis .
    qed
    with r lv Y Yl show ?thesis by simp
  qed
  have sel: "take (length h) h' = h \<and> length h \<le> Y \<and> Y < length h'"
    if "run_step ?P ''select_features'' h X = Some r" "r = Inr (h', Y)" for r h' Y
  proof -
    from run_step_select_features[OF that(1)] that(2)
    have "select_features (keep_features_list self) h X = Inr (h', Y)"
      by (simp add: DFTransform_transform_def)
    from select_features_fresh[OF this] show ?thesis by simp
  qed
  from imp low sel show ?thesis by blast
qed

theorem pipeline_steps_effect_witness:
  "run_step
     (construct_pipeline (\<lambda>df. df\<lparr>columns := [(''f'', [Some 0])]\<rparr>) (\<lambda>vs. 1) (\<lambda>vs. 1)
        \<lparr>impute = True, do_scaling = False, remove_low_variance = True,
         keep_features_list = Some [''f'']\<rparr>)
     ''imputation'' [\<lparr>nrows = 1, columns = [(''f'', [None :: real option])]\<rparr>] 0
   = Some (Inr ([\<lparr>nrows = 1, columns = [(''f'', [Some 0])]\<rparr>], 0)) \<and>
   run_step
     (construct_pipeline (\<lambda>df. df\<lparr>columns := [(''f'', [Some 0])]\<rparr>) (\<lambda>vs. 1) (\<lambda>vs. 1)
        \<lparr>impute = True, do_scaling = False, remove_low_variance = True,
         keep_features_list = Some [''f'']\<rparr>)
     ''select_features'' [\<lparr>nrows = 1, columns = [(''f'', [None :: real option])]\<rparr>] 0
   = Some (Inr ([\<lparr>nrows = 1, columns = [(''f'', [None])]\<rparr>,
                 \<lparr>nrows = 1, columns = [(''f'', [None])]\<rparr>], 1)) \<and>
   run_step
     (construct_pipeline (\<lambda>df. df\<lparr>columns := [(''f'', [Some 0])]\<rparr>) (\<lambda>vs. 1) (\<lambda>vs. 1)
        \<lparr>impute = True, do_scaling = False, remove_low_variance = True,
         keep_features_list = Some [''f'']\<rparr>)
     ''low_var_removal'' [\<lparr>nrows = 1, columns = [(''f'', [None :: real option])]\<rparr>] 0
   = Some (Inr ([\<lparr>nrows = 1, columns = [(''f'', [None])]\<rparr>,
                 \<lparr>nrows = 1, columns = [(''f'', [None])]\<rparr>,
                 \<lparr>nrows = 1, columns = [(''f'', [None])]\<rparr>], 2))"
proof -
  let ?P = "construct_pipeline (\<lambda>df. df\<lparr>columns := [(''f'', [Some 0])]\<rparr>) (\<lambda>vs. 1) (\<lambda>vs. 1)
        \<lparr>impute = True, do_scaling = False, remove_low_variance = True,
         keep_features_list = Some [''f'']\<rparr>"
  let ?h = "[\<lparr>nrows = 1, columns = [(''f'', [None :: real option])]\<rparr>]"
  have a: "run_step ?P ''imputation'' ?h 0
             = Some (DFTransform_transform
                 \<lparr>func = tsfresh_imputation (\<lambda>df. df\<lparr>columns := [(''f'', [Some 0])]\<rparr>),
                  copy = False\<rparr> ?h 0)"
    by (simp add: run_step_def construct_pipeline_def)
  have b: "run_step ?P ''select_features'' ?h 0
             = Some (Inr ([\<lparr>nrows = 1, columns = [(''f'', [None])]\<rparr>,
                           \<lparr>nrows = 1, columns = [(''f'', [None])]\<rparr>], 1))"
    by (simp add: run_step_def construct_pipeline_def DFTransform_transform_def
          select_features_def loc_columns_def column_set_def alloc_def)
  have c: "run_step ?P ''low_var_removal'' ?h 0
             = Some (Inr ([\<lparr>nrows = 1, columns = [(''f'', [None])]\<rparr>,
                 \<lparr>nrows = 1, columns = [(''f'', [None])]\<rparr>,
                 \<lparr>nrows = 1, columns = [(''f'', [None])]\<rparr>], 2))"
    by (simp add: run_step_def construct_pipeline_def DFTransform_transform_def
          low_variance_removal_def df_copy_def alloc_def)
  from pipeline_steps_effect [THEN conjunct1, rule_format, OF a]
  have "DFTransform_transform
                 \<lparr>func = tsfresh_imputation (\<lambda>df. df\<lparr>columns := [(''f'', [Some 0])]\<rparr>),
                  copy = False\<rparr> ?h 0
        = Inr ([\<lparr>nrows = 1, columns = [(''f'', [Some 0])]\<rparr>], 0)"
    by simp
  with a b c show ?thesis by simp
qed

end
